theory Spec2Isabelle
  imports Main "HOL-Library.AList"
begin

section \<open>Values decoded from a telemetry line\<close>

text \<open>
  \<open>orjson.loads\<close> yields Python values: \<open>None\<close>, \<open>bool\<close>, \<open>int\<close>, \<open>float\<close>, \<open>str\<close>,
  \<open>list\<close> and \<open>dict\<close>. A dict is an association list read with \<open>map_of\<close>. The type
  \<open>'f\<close> stands for Python's \<open>float\<close>; nothing below looks inside a float.
\<close>

datatype 'f json =
    JNull
  | JBool bool
  | JInt int
  | JFloat 'f
  | JStr string
  | JArr "'f json list"
  | JObj "(string \<times> 'f json) list"

datatype error =
    AttributeError
  | TypeError
  | ValueError
  | OverflowError
  | JSONDecodeError
  | RetryError
  | CircuitBreakerError

text \<open>
  The conversions of the Python runtime that \<open>build_span\<close> applies to a string or to a
  float are parameters: \<open>int(str)\<close>, \<open>int(float)\<close>, \<open>float(str)\<close> and \<open>float(int)\<close>. Each may
  raise.
\<close>

record 'f builtins =
  int_of_str :: "string \<Rightarrow> error + int"
  int_of_float :: "'f \<Rightarrow> error + int"
  float_of_str :: "string \<Rightarrow> error + 'f"
  float_of_int :: "int \<Rightarrow> error + 'f"

fun py_int :: "'f builtins \<Rightarrow> 'f json \<Rightarrow> error + int" where
  "py_int B (JInt n) = Inr n"
| "py_int B (JBool b) = Inr (if b then 1 else 0)"
| "py_int B (JFloat x) = int_of_float B x"
| "py_int B (JStr s) = int_of_str B s"
| "py_int B JNull = Inl TypeError"
| "py_int B (JArr xs) = Inl TypeError"
| "py_int B (JObj d) = Inl TypeError"

fun py_float :: "'f builtins \<Rightarrow> 'f json \<Rightarrow> error + 'f" where
  "py_float B (JInt n) = float_of_int B n"
| "py_float B (JBool b) = float_of_int B (if b then 1 else 0)"
| "py_float B (JFloat x) = Inr x"
| "py_float B (JStr s) = float_of_str B s"
| "py_float B JNull = Inl TypeError"
| "py_float B (JArr xs) = Inl TypeError"
| "py_float B (JObj d) = Inl TypeError"

text \<open>\<open>record.get(key, default)\<close> and \<open>key in record\<close>.\<close>

definition dict_get :: "(string \<times> 'f json) list \<Rightarrow> string \<Rightarrow> 'f json \<Rightarrow> 'f json" where
  "dict_get d k dflt = (case map_of d k of None \<Rightarrow> dflt | Some v \<Rightarrow> v)"

definition dict_has :: "(string \<times> 'f json) list \<Rightarrow> string \<Rightarrow> bool" where
  "dict_has d k = (map_of d k \<noteq> None)"

text \<open>Sequencing of steps that may raise.\<close>

definition bind_err :: "error + 'a \<Rightarrow> ('a \<Rightarrow> error + 'b) \<Rightarrow> error + 'b" where
  "bind_err m f = (case m of Inl e \<Rightarrow> Inl e | Inr x \<Rightarrow> f x)"

section \<open>Number formatting\<close>

definition hexdigits :: string where
  "hexdigits = ''0123456789abcdef''"

definition decdigits :: string where
  "decdigits = ''0123456789''"

function hex_of_nat :: "nat \<Rightarrow> string" where
  "hex_of_nat n =
     (if n < 16 then [hexdigits ! n] else hex_of_nat (n div 16) @ [hexdigits ! (n mod 16)])"
  by pat_completeness auto
termination
  by (relation "measure (\<lambda>n. n)") auto

declare hex_of_nat.simps [simp del]

function dec_of_nat :: "nat \<Rightarrow> string" where
  "dec_of_nat n =
     (if n < 10 then [decdigits ! n] else dec_of_nat (n div 10) @ [decdigits ! (n mod 10)])"
  by pat_completeness auto
termination
  by (relation "measure (\<lambda>n. n)") auto

declare dec_of_nat.simps [simp del]

definition zfill :: "nat \<Rightarrow> string \<Rightarrow> string" where
  "zfill w s = replicate (w - length s) (CHR ''0'') @ s"

text \<open>
  \<open>format(n, '016x')\<close>: lowercase hexadecimal, zero-padded to a width of 16 that counts the
  sign of a negative number; never truncated.
\<close>

definition format_016x :: "int \<Rightarrow> string" where
  "format_016x n =
     (if n < 0 then CHR ''-'' # zfill 15 (hex_of_nat (nat (- n)))
      else zfill 16 (hex_of_nat (nat n)))"

text \<open>\<open>str(n)\<close> for an integer.\<close>

definition str_int :: "int \<Rightarrow> string" where
  "str_int n = (if n < 0 then CHR ''-'' # dec_of_nat (nat (- n)) else dec_of_nat (nat n))"

text \<open>
  Reading a string of lowercase hexadecimal digits back as a number, and what it means for
  a string to be the 16-digit representation of a number.
\<close>

definition hex_digit_value :: "char \<Rightarrow> nat" where
  "hex_digit_value c = length (takeWhile (\<lambda>d. d \<noteq> c) hexdigits)"

definition hex_value :: "string \<Rightarrow> nat" where
  "hex_value s = foldl (\<lambda>a c. 16 * a + hex_digit_value c) 0 s"

definition is_hex_digit :: "char \<Rightarrow> bool" where
  "is_hex_digit c = (c \<in> set hexdigits)"

definition is_hex16 :: "string \<Rightarrow> int \<Rightarrow> bool" where
  "is_hex16 s n = (length s = 16 \<and> list_all is_hex_digit s \<and> int (hex_value s) = n)"

section \<open>Span builder\<close>

text \<open>
  An attribute \<open>{'key': k, 'value': {kind: v}}\<close> is the triple \<open>(k, kind, v)\<close>. The nesting
  of the built dictionary is kept: a span message carries its \<open>_guid\<close>, its \<open>_trace_id\<close>
  and the list \<open>resourceSpans\<close>, whose single element holds the resource attributes and one
  scope with one span.
\<close>

type_synonym 'f attribute = "string \<times> string \<times> 'f json"

record 'f otlp_span =
  traceId :: string
  spanId :: string
  parentSpanId :: string
  name :: "'f json"
  kind :: string
  startTimeUnixNano :: string
  endTimeUnixNano :: string
  attributes :: "'f attribute list"

record 'f resource_span =
  resource_attributes :: "'f attribute list"
  scopeSpans :: "'f otlp_span list list"

record 'f span =
  priv_guid :: string
  priv_trace_id :: string
  resourceSpans :: "'f resource_span list"

text \<open>\<open>guid.replace('-', '')\<close> and the two prefixed, padded and cut trace ids.\<close>

definition remove_dashes :: "string \<Rightarrow> string" where
  "remove_dashes s = filter (\<lambda>c. c \<noteq> CHR ''-'') s"

definition make_trace_id :: "bool \<Rightarrow> string \<Rightarrow> string" where
  "make_trace_id is_logoff guid =
     (if is_logoff
      then take 32 (''2'' @ remove_dashes guid @ replicate 31 (CHR ''0''))
      else take 32 (''1'' @ remove_dashes guid @ replicate 31 (CHR ''0'')))"

text \<open>
  The body of \<open>build_span\<close> on a dict. \<open>now\<close> is the reading of \<open>time.time()\<close> in
  nanoseconds, so \<open>int(time.time())\<close> is \<open>now\<close> divided by \<open>10^9\<close> and cut towards zero. The
  conversions run in the order of the source and the first one that raises ends the call.
\<close>

definition build_span_dict ::
  "'f builtins \<Rightarrow> int \<Rightarrow> (string \<times> 'f json) list \<Rightarrow> error + 'f span" where
  "build_span_dict B now d =
   (let epoch_s = (if 0 \<le> now then now div 1000000000 else - ((- now) div 1000000000)) in
    bind_err (py_int B (dict_get d ''ProcStartTimeRelativeMs'' (JInt 0))) (\<lambda>rel_ms.
    let start_ns = epoch_s * 1000000000 + rel_ms * 1000000 in
    bind_err (py_int B (dict_get d ''ProcLifetimeMs'' (JInt 0))) (\<lambda>life_ms.
    let end_ns = start_ns + life_ms * 1000000 in
    bind_err (py_int B (dict_get d ''ProcID'' (JInt 0))) (\<lambda>pid.
    let span_id = format_016x pid in
    bind_err (py_int B (dict_get d ''ProcParentID'' (JInt 0))) (\<lambda>ppid.
    bind_err (if ppid \<noteq> 0
              then bind_err (py_int B (dict_get d ''ProcParentID'' (JInt 0)))
                     (\<lambda>p. Inr (format_016x p))
              else Inr '''') (\<lambda>parent_id.
    let is_logoff = dict_has d ''LogoffProcType'';
        service_name =
          (if is_logoff
           then dict_get d ''LogoffProcType''
                  (dict_get d ''LogonProcType'' (JStr ''unknown-service''))
           else dict_get d ''LogonProcType'' (JStr ''unknown-service''));
        event_type = (if is_logoff then ''logoff'' else ''logon'')
    in
    (case dict_get d ''SessionGUID'' (JStr '''') of
       JStr guid \<Rightarrow>
         let trace_id = make_trace_id is_logoff guid in
         bind_err (py_int B (dict_get d ''ProcCPUTimeMs'' (JInt 0))) (\<lambda>cpu.
         bind_err (py_float B (dict_get d ''ProcWorkingSetMB'' (JInt 0))) (\<lambda>ws.
         bind_err (py_float B (dict_get d ''ProcNetKBPS'' (JInt 0))) (\<lambda>net.
         bind_err (py_int B (dict_get d ''ProcIOReadCount'' (JInt 0))) (\<lambda>rc.
         bind_err (py_int B (dict_get d ''ProcIOWriteCount'' (JInt 0))) (\<lambda>wc.
         bind_err (py_int B (dict_get d ''ProcIOReadMB'' (JInt 0))) (\<lambda>rmb.
         bind_err (py_int B (dict_get d ''ProcIOWriteMB'' (JInt 0))) (\<lambda>wmb.
         bind_err (py_int B (dict_get d ''ProcIOLatencyReadMs2'' (JInt 0))) (\<lambda>lr.
         bind_err (py_int B (dict_get d ''ProcIOLatencyWriteMs2'' (JInt 0))) (\<lambda>lw.
         bind_err (py_int B (dict_get d ''ProcLifetimeMs'' (JInt 0))) (\<lambda>life.
         Inr \<lparr> priv_guid = guid,
               priv_trace_id = trace_id,
               resourceSpans =
                 [\<lparr> resource_attributes = [(''service.name'', ''stringValue'', service_name)],
                    scopeSpans =
                      [[\<lparr> traceId = trace_id,
                           spanId = span_id,
                           parentSpanId = parent_id,
                           name = dict_get d ''ProcName'' (JStr ''unknown-span''),
                           kind = ''SPAN_KIND_INTERNAL'',
                           startTimeUnixNano = str_int start_ns,
                           endTimeUnixNano = str_int end_ns,
                           attributes =
                             [(''ProcUser'', ''stringValue'',
                                 dict_get d ''ProcUser'' (JStr ''unknown-user'')),
                              (''ProcCPUTimeMs'', ''intValue'', JInt cpu),
                              (''ProcWorkingSetMB'', ''doubleValue'', JFloat ws),
                              (''ProcNetKBPS'', ''doubleValue'', JFloat net),
                              (''ProcIOReadCount'', ''intValue'', JInt rc),
                              (''ProcIOWriteCount'', ''intValue'', JInt wc),
                              (''ProcIOReadMB'', ''doubleValue'', JInt rmb),
                              (''ProcIOWriteMB'', ''doubleValue'', JInt wmb),
                              (''ProcIOLatencyReadMs2'', ''intValue'', JInt lr),
                              (''ProcIOLatencyWriteMs2'', ''intValue'', JInt lw),
                              (''ProcLifetimeMs'', ''intValue'', JInt life),
                              (''event_type'', ''stringValue'', JStr event_type)] \<rparr>]] \<rparr>] \<rparr>
         ))))))))))
     | _ \<Rightarrow> Inl AttributeError)))))))"

text \<open>
  \<open>build_span\<close> is called on whatever \<open>orjson.loads\<close> returned; \<open>record.get\<close> exists only
  on a dict.
\<close>

definition build_span :: "'f builtins \<Rightarrow> int \<Rightarrow> 'f json \<Rightarrow> error + 'f span" where
  "build_span B now v = (case v of JObj d \<Rightarrow> build_span_dict B now d | _ \<Rightarrow> Inl AttributeError)"

text \<open>The one span inside a span message.\<close>

definition the_span :: "'f span \<Rightarrow> 'f otlp_span" where
  "the_span m = hd (hd (scopeSpans (hd (resourceSpans m))))"


text \<open>Reading one field of the inner span out of the result of \<open>build_span\<close>.\<close>

definition on_span :: "('f otlp_span \<Rightarrow> 'a) \<Rightarrow> error + 'f span \<Rightarrow> error + 'a" where
  "on_span field r = map_sum id (field \<circ> the_span) r"

definition is_hex_char :: "char \<Rightarrow> bool" where
  "is_hex_char c = (c \<in> set ''0123456789abcdefABCDEF'')"

definition hex_or_dash :: "char \<Rightarrow> bool" where
  "hex_or_dash c = (is_hex_char c \<or> c = CHR ''-'')"

text \<open>
  A runtime for evaluating examples: its floats are whole numbers, and a string converts
  when it is a non-empty run of ASCII decimal digits (Python accepts more strings than
  these; the strings used in the examples below are not among them).
\<close>

definition parse_decimal :: "string \<Rightarrow> error + int" where
  "parse_decimal s =
     (if s \<noteq> [] \<and> list_all (\<lambda>c. c \<in> set decdigits) s
      then Inr (int (foldl (\<lambda>a c. 10 * a + length (takeWhile (\<lambda>d. d \<noteq> c) decdigits)) 0 s))
      else Inl ValueError)"

definition whole_builtins :: "int builtins" where
  "whole_builtins =
     \<lparr> int_of_str = parse_decimal, int_of_float = Inr,
       float_of_str = parse_decimal, float_of_int = Inr \<rparr>"

section \<open>Pipeline state\<close>

text \<open>
  The module-level queues, counters and the breaker, with what the outside world has seen:
  the payloads posted to the OTLP endpoint, the batches handed to \<open>send_batch\<close>, the
  points handed to the write API of the time-series sink (\<open>written\<close>) and those of them
  that the sink took (\<open>stored\<close>). \<open>clock_reads\<close>, \<open>queue_gets\<close> and \<open>sink_writes\<close>
  count the calls made so far; they index the environment below. Bytes are characters.
  A queue is the list of its entries, oldest first; that a full queue blocks \<open>put\<close> is
  not modelled.
\<close>

datatype breaker_state = Closed nat | Open int

record point =
  measurement :: string
  point_tags :: "(string \<times> string) list"
  point_fields :: "(string \<times> int) list"
  point_time :: int

record 'f pipeline =
  recv_queue :: "string list"
  span_queue :: "'f span list"
  records_received :: nat
  records_parsed :: nat
  batches_sent :: nat
  export_failures :: nat
  span_queue_size :: nat
  error_log :: "error list"
  breaker :: breaker_state
  clock_reads :: nat
  queue_gets :: nat
  sink_writes :: nat
  dispatched :: "'f span list list"
  posted :: "'f resource_span list list"
  written :: "point list"
  stored :: "point list"

text \<open>
  The environment of the exporter thread: the \<open>k\<close>-th reading of the clock (nanoseconds),
  the spans that producers have put on the span queue by the time the \<open>k\<close>-th \<open>get\<close>
  resolves, whether the \<open>k\<close>-th POST succeeds, and whether the sink takes the \<open>k\<close>-th point
  handed to it.
\<close>

record 'f env =
  clock :: "nat \<Rightarrow> int"
  arrivals :: "nat \<Rightarrow> 'f span list"
  endpoint :: "nat \<Rightarrow> bool"
  sink :: "nat \<Rightarrow> bool"

record config =
  BATCH_SIZE :: int
  BATCH_TIMEOUT :: int

section \<open>Worker\<close>

text \<open>
  \<open>orjson.loads\<close> is a parameter of the worker. A decoder for evaluating examples: it
  decodes three lines and rejects every other line (of the lines used below, only
  \<open>not json\<close> is rejected, and it is not JSON).
\<close>

definition sample_loads :: "string \<Rightarrow> error + int json" where
  "sample_loads line =
     (if line = ''{\"ProcID\":100}'' then Inr (JObj [(''ProcID'', JInt 100)])
      else if line = ''{\"ProcID\":\"abc\"}'' then Inr (JObj [(''ProcID'', JStr ''abc'')])
      else if line = ''[1]'' then Inr (JArr [JInt 1])
      else Inl JSONDecodeError)"

text \<open>The \<open>try\<close> block of the worker: decode, build, count, enqueue.\<close>

definition worker_body ::
  "'f builtins \<Rightarrow> (string \<Rightarrow> error + 'f json) \<Rightarrow> int \<Rightarrow> string \<Rightarrow> 'f pipeline
     \<Rightarrow> error + 'f pipeline" where
  "worker_body B loads now line st =
     bind_err (loads line) (\<lambda>record.
     bind_err (build_span B now record) (\<lambda>span.
     Inr (st\<lparr>records_parsed := records_parsed st + 1,
              span_queue := span_queue st @ [span]\<rparr>)))"

text \<open>
  One iteration of the worker loop on a dequeued line. \<open>Inl\<close> would be an exception
  leaving the loop.
\<close>

definition worker_iter ::
  "'f builtins \<Rightarrow> (string \<Rightarrow> error + 'f json) \<Rightarrow> int \<Rightarrow> string \<Rightarrow> 'f pipeline
     \<Rightarrow> error + 'f pipeline" where
  "worker_iter B loads now line st =
     (let st1 = st\<lparr>records_received := records_received st + 1\<rparr>;
          st2 = (case worker_body B loads now line st1 of
                   Inl e \<Rightarrow> st1\<lparr>error_log := error_log st1 @ [e]\<rparr>
                 | Inr st' \<Rightarrow> st')
      in Inr (st2\<lparr>span_queue_size := length (span_queue st2)\<rparr>))"

definition worker_step ::
  "'f builtins \<Rightarrow> (string \<Rightarrow> error + 'f json) \<Rightarrow> int \<Rightarrow> 'f pipeline \<Rightarrow> error + 'f pipeline" where
  "worker_step B loads now st =
     (case recv_queue st of
        [] \<Rightarrow> Inr st
      | line # rest \<Rightarrow> worker_iter B loads now line (st\<lparr>recv_queue := rest\<rparr>))"

text \<open>The loop, one clock reading per iteration, until the shutdown flag is seen.\<close>

fun worker ::
  "'f builtins \<Rightarrow> (string \<Rightarrow> error + 'f json) \<Rightarrow> int list \<Rightarrow> 'f pipeline \<Rightarrow> error + 'f pipeline" where
  "worker B loads [] st = Inr st"
| "worker B loads (now # nows) st = bind_err (worker_step B loads now st) (worker B loads nows)"

section \<open>Batch exporter\<close>

definition read_clock :: "'f env \<Rightarrow> 'f pipeline \<Rightarrow> int \<times> 'f pipeline" where
  "read_clock E st = (clock E (clock_reads st), st\<lparr>clock_reads := clock_reads st + 1\<rparr>)"

text \<open>\<open>span_queue.get(timeout=...)\<close> with a non-negative timeout; \<open>None\<close> is \<open>queue.Empty\<close>.\<close>

definition queue_get :: "'f env \<Rightarrow> 'f pipeline \<Rightarrow> 'f span option \<times> 'f pipeline" where
  "queue_get E st =
     (let q = span_queue st @ arrivals E (queue_gets st);
          st1 = st\<lparr>queue_gets := queue_gets st + 1\<rparr>
      in case q of
           [] \<Rightarrow> (None, st1\<lparr>span_queue := []\<rparr>)
         | s # r \<Rightarrow> (Some s, st1\<lparr>span_queue := r\<rparr>))"

text \<open>
  The inner collecting loop of \<open>run\<close>. The clock is read once for the loop test and once
  more for the timeout handed to \<open>get\<close>, which raises \<open>ValueError\<close> on a negative timeout;
  that exception is not \<open>queue.Empty\<close> and leaves \<open>run\<close>.
\<close>

function collect ::
  "config \<Rightarrow> 'f env \<Rightarrow> int \<Rightarrow> 'f span list \<Rightarrow> 'f pipeline
     \<Rightarrow> error + ('f span list \<times> 'f pipeline)" where
  "collect C E start batch st =
     (if int (length batch) < BATCH_SIZE C then
        (if fst (read_clock E st) - start < BATCH_TIMEOUT C then
           (let st1 = snd (read_clock E st);
                t2 = fst (read_clock E st1);
                st2 = snd (read_clock E st1)
            in if BATCH_TIMEOUT C - (t2 - start) < 0 then Inl ValueError
               else (case fst (queue_get E st2) of
                       None \<Rightarrow> Inr (batch, snd (queue_get E st2))
                     | Some s \<Rightarrow> collect C E start (batch @ [s]) (snd (queue_get E st2))))
         else Inr (batch, snd (read_clock E st)))
      else Inr (batch, st))"
  by pat_completeness auto
termination
  by (relation "measure (\<lambda>(C, E, start, batch, st). nat (BATCH_SIZE C) - length batch)") auto

declare collect.simps [simp del]

text \<open>The body of \<open>send_batch\<close>: one payload from all spans of the batch, one POST.\<close>

definition send_body :: "'f env \<Rightarrow> 'f span list \<Rightarrow> 'f pipeline \<Rightarrow> bool \<times> 'f pipeline" where
  "send_body E batch st =
     (let payload = concat (map resourceSpans batch)
      in (endpoint E (length (posted st)), st\<lparr>posted := posted st @ [payload]\<rparr>))"

text \<open>
  The arguments that the source gives to the decorators of \<open>send_batch\<close>:
  \<open>stop_after_attempt(3)\<close>, \<open>fail_max=5\<close> and \<open>reset_timeout=30\<close> seconds. The latency
  summary that times each attempt is left out.
\<close>

definition retry_attempts :: nat where
  "retry_attempts = 3"

definition fail_max :: nat where
  "fail_max = 5"

definition reset_timeout :: int where
  "reset_timeout = 30 * 1000000000"

text \<open>
  Modelled from the spec: the decorator \<open>tenacity.retry\<close>, a library whose code is not in
  the repository. A bounded retry with a fixed attempt cap that retries on any exception:
  the body is called until it succeeds, at most \<open>n\<close> times, and the call fails when every
  attempt has failed. The waits between the attempts are time that passes in the
  environment.
\<close>

fun retry :: "nat \<Rightarrow> 'f env \<Rightarrow> 'f span list \<Rightarrow> 'f pipeline \<Rightarrow> bool \<times> 'f pipeline" where
  "retry 0 E batch st = (False, st)"
| "retry (Suc n) E batch st =
     (if fst (send_body E batch st) then (True, snd (send_body E batch st))
      else retry n E batch (snd (send_body E batch st)))"

text \<open>
  Modelled from the spec: the decorator \<open>pybreaker.CircuitBreaker\<close>, a library whose code
  is not in the repository, wrapped around the retried body as the source stacks them. The
  breaker opens after \<open>fail_max\<close> consecutive failures of the wrapped call and notes the
  time; while open it fails every call at once, without calling the wrapped function, until
  \<open>reset_timeout\<close> has passed since it opened; after that one trial call closes it or
  opens it again. A success closes the breaker and clears the count.
\<close>

definition trip :: "'f env \<Rightarrow> 'f pipeline \<Rightarrow> error option \<times> 'f pipeline" where
  "trip E st =
     (Some CircuitBreakerError,
      (snd (read_clock E st))\<lparr>breaker := Open (fst (read_clock E st))\<rparr>)"

definition send_batch ::
  "'f env \<Rightarrow> 'f span list \<Rightarrow> 'f pipeline \<Rightarrow> error option \<times> 'f pipeline" where
  "send_batch E batch st =
     (let st0 = st\<lparr>dispatched := dispatched st @ [batch]\<rparr>
      in case breaker st0 of
           Open opened_at \<Rightarrow>
             (let now = fst (read_clock E st0); st1 = snd (read_clock E st0)
              in if now < opened_at + reset_timeout then (Some CircuitBreakerError, st1)
                 else (let r = retry retry_attempts E batch st1
                       in if fst r then (None, (snd r)\<lparr>breaker := Closed 0\<rparr>)
                          else trip E (snd r)))
         | Closed k \<Rightarrow>
             (let r = retry retry_attempts E batch st0
              in if fst r then (None, (snd r)\<lparr>breaker := Closed 0\<rparr>)
                 else if fail_max \<le> Suc k then trip E (snd r)
                 else (Some RetryError, (snd r)\<lparr>breaker := Closed (Suc k)\<rparr>)))"

text \<open>The \<open>seen\<close> dict of \<open>run\<close>, in insertion order, and the points made from it.\<close>

fun collect_seen :: "'f span list \<Rightarrow> (string \<times> string) list \<Rightarrow> (string \<times> string) list" where
  "collect_seen [] seen = seen"
| "collect_seen (s # batch) seen =
     collect_seen batch
       (if priv_guid s \<noteq> [] \<and> priv_trace_id s \<noteq> []
        then AList.update (priv_guid s) (priv_trace_id s) seen else seen)"

definition metric_name :: "string \<Rightarrow> string" where
  "metric_name t =
     (if take 1 t = ''1'' then ''uberAgent:logonTraceMap'' else ''uberAgent:logoffTraceMap'')"

definition make_point :: "int \<Rightarrow> string \<Rightarrow> string \<Rightarrow> point" where
  "make_point ts g t =
     \<lparr> measurement = metric_name t,
       point_tags = [(''guid'', g), (''trace_id'', t)],
       point_fields = [(''value'', 0)],
       point_time = ts \<rparr>"

text \<open>
  Modelled from the spec: \<open>write_api.write\<close> of the time-series client, a library whose code
  is not in the repository. The source builds the write API with batching options
  (\<open>WriteOptions(batch_size=1000, flush_interval=1000)\<close>), and the specification calls the
  write fire-and-forget: the call hands the point over and returns; whether the sink takes
  the point is settled later, by the client, and is not reported to the caller. The loop
  over the \<open>seen\<close> dict is the source's.
\<close>

fun write_points ::
  "'f env \<Rightarrow> int \<Rightarrow> (string \<times> string) list \<Rightarrow> 'f pipeline \<Rightarrow> 'f pipeline" where
  "write_points E ts [] st = st"
| "write_points E ts ((g, t) # rest) st =
     write_points E ts rest
       (st\<lparr>sink_writes := sink_writes st + 1,
           written := written st @ [make_point ts g t],
           stored := stored st @ (if sink E (sink_writes st) then [make_point ts g t] else [])\<rparr>)"

text \<open>The \<open>try\<close> block of \<open>run\<close> on a collected batch, and its \<open>except\<close> clause.\<close>

definition export_try ::
  "'f env \<Rightarrow> 'f span list \<Rightarrow> 'f pipeline \<Rightarrow> error option \<times> 'f pipeline" where
  "export_try E batch st =
     (case send_batch E batch st of
        (Some e, st1) \<Rightarrow> (Some e, st1)
      | (None, st1) \<Rightarrow>
          (let st2 = st1\<lparr>batches_sent := batches_sent st1 + 1\<rparr>;
               seen = collect_seen batch [];
               ts = fst (read_clock E st2)
           in (None, write_points E ts seen (snd (read_clock E st2)))))"

definition export :: "'f env \<Rightarrow> 'f span list \<Rightarrow> 'f pipeline \<Rightarrow> 'f pipeline" where
  "export E batch st =
     (case export_try E batch st of
        (Some e, st1) \<Rightarrow>
          st1\<lparr>error_log := error_log st1 @ [e], export_failures := export_failures st1 + 1\<rparr>
      | (None, st1) \<Rightarrow> st1)"

text \<open>
  One iteration of the outer loop of \<open>run\<close>. An empty first \<open>get\<close> is the \<open>continue\<close>;
  \<open>Inl\<close> is an exception that ends the exporter thread.
\<close>

definition cycle :: "config \<Rightarrow> 'f env \<Rightarrow> 'f pipeline \<Rightarrow> error + 'f pipeline" where
  "cycle C E st =
     (case queue_get E st of
        (None, st1) \<Rightarrow> Inr st1
      | (Some span, st1) \<Rightarrow>
          (let start = fst (read_clock E st1); st2 = snd (read_clock E st1)
           in case collect C E start [span] st2 of
                Inl e \<Rightarrow> Inl e
              | Inr (batch, st3) \<Rightarrow>
                  (let st4 = (if batch \<noteq> [] then export E batch st3 else st3)
                   in Inr (st4\<lparr>span_queue_size := length (span_queue st4)\<rparr>))))"

text \<open>The first \<open>n\<close> iterations of \<open>run\<close>, the shutdown flag unset before each.\<close>

fun run :: "config \<Rightarrow> 'f env \<Rightarrow> nat \<Rightarrow> 'f pipeline \<Rightarrow> error + 'f pipeline" where
  "run C E 0 st = Inr st"
| "run C E (Suc n) st = bind_err (cycle C E st) (run C E n)"

section \<open>Socket reader\<close>

definition newline :: char where
  "newline = CHR 0x0A"

text \<open>\<open>bytes.strip()\<close> removes ASCII whitespace from both ends.\<close>

definition is_space :: "char \<Rightarrow> bool" where
  "is_space c = (c \<in> {CHR 0x20, CHR 0x09, CHR 0x0A, CHR 0x0D, CHR 0x0B, CHR 0x0C})"

definition strip :: "string \<Rightarrow> string" where
  "strip s = rev (dropWhile is_space (rev (dropWhile is_space s)))"

text \<open>\<open>buf.split(b'\n', 1)\<close> when the buffer holds a newline, \<open>None\<close> when it holds none.\<close>

fun split_newline :: "string \<Rightarrow> (string \<times> string) option" where
  "split_newline [] = None"
| "split_newline (c # cs) =
     (if c = newline then Some ([], cs)
      else (case split_newline cs of
              None \<Rightarrow> None
            | Some (line, rest) \<Rightarrow> Some (c # line, rest)))"

text \<open>The inner loop of \<open>handle_client\<close>: every complete line leaves the buffer.\<close>

function drain :: "string \<Rightarrow> 'f pipeline \<Rightarrow> string \<times> 'f pipeline" where
  "drain buf st =
     (case split_newline buf of
        None \<Rightarrow> (buf, st)
      | Some (line, rest) \<Rightarrow>
          drain rest (if strip line \<noteq> [] then st\<lparr>recv_queue := recv_queue st @ [line]\<rparr> else st))"
  by pat_completeness auto
termination
proof (relation "measure (\<lambda>(buf, st). length buf)")
  show "wf (measure (\<lambda>(buf, st :: 'f pipeline). length buf))"
    by simp
next
  fix buf line rest :: string and st :: "'f pipeline" and x2
  assume "split_newline buf = Some x2" and "(line, rest) = x2"
  then have "split_newline buf = Some (line, rest)"
    by simp
  then have "length rest < length buf"
    by (induction buf arbitrary: line rest) (auto split: if_splits option.splits)
  then show "((rest, if strip line \<noteq> [] then st\<lparr>recv_queue := recv_queue st @ [line]\<rparr> else st),
              (buf, st)) \<in> measure (\<lambda>(buf, st). length buf)"
    by simp
qed

declare drain.simps [simp del]

text \<open>
  The reader on the chunks that \<open>recv\<close> returns, in order, starting from a buffer. An
  empty chunk is the closed connection; the end of the list is the shutdown flag or an
  error of the socket. The result is the buffer left over and the state.
\<close>

fun handle_client :: "string list \<Rightarrow> string \<Rightarrow> 'f pipeline \<Rightarrow> string \<times> 'f pipeline" where
  "handle_client [] buf st = (buf, st)"
| "handle_client (data # chunks) buf st =
     (if data = [] then (buf, st)
      else handle_client chunks (fst (drain (buf @ data) st)) (snd (drain (buf @ data) st)))"

text \<open>
  What the reader is to deliver, in the words of the specification: the stream is a
  sequence of lines, each ended by a newline and holding none, followed by a rest that
  holds no newline; a line counts when its stripped form is non-empty.
\<close>

definition is_line_split :: "string \<Rightarrow> string list \<Rightarrow> string \<Rightarrow> bool" where
  "is_line_split s lines rest =
     (s = concat (map (\<lambda>l. l @ [newline]) lines) @ rest
      \<and> newline \<notin> set rest
      \<and> list_all (\<lambda>l. newline \<notin> set l) lines)"

definition nonblank :: "string \<Rightarrow> bool" where
  "nonblank line = (strip line \<noteq> [])"

text \<open>The state at start-up.\<close>

definition initial :: "'f pipeline" where
  "initial =
     \<lparr> recv_queue = [], span_queue = [], records_received = 0, records_parsed = 0,
       batches_sent = 0, export_failures = 0, span_queue_size = 0, error_log = [],
       breaker = Closed 0, clock_reads = 0, queue_gets = 0, sink_writes = 0,
       dispatched = [], posted = [], written = [], stored = [] \<rparr>"

text \<open>
  For stating what the exporter writes: a span counts for the \<open>seen\<close> dict when its guid
  and its trace id are non-empty; its entry; the point made from an entry.
\<close>

definition eligible :: "'f span \<Rightarrow> bool" where
  "eligible s = (priv_guid s \<noteq> [] \<and> priv_trace_id s \<noteq> [])"

definition guid_trace :: "'f span \<Rightarrow> string \<times> string" where
  "guid_trace s = (priv_guid s, priv_trace_id s)"

definition point_of :: "int \<Rightarrow> string \<times> string \<Rightarrow> point" where
  "point_of ts gt = make_point ts (fst gt) (snd gt)"

text \<open>
  For evaluating examples: an environment whose clock stands still, where nothing arrives
  and the endpoint and the sink always give the same answer; and the spans that
  \<open>build_span\<close> makes of a logon and of a logoff record with a given \<open>SessionGUID\<close>.
\<close>

definition still_env :: "bool \<Rightarrow> bool \<Rightarrow> 'f env" where
  "still_env up sink_ok =
     \<lparr> clock = (\<lambda>k. 0), arrivals = (\<lambda>k. []), endpoint = (\<lambda>k. up), sink = (\<lambda>k. sink_ok) \<rparr>"

definition logon_span :: "string \<Rightarrow> int span" where
  "logon_span guid =
     projr (build_span whole_builtins 0 (JObj [(''SessionGUID'', JStr guid)]))"

definition logoff_span :: "string \<Rightarrow> int span" where
  "logoff_span guid =
     projr (build_span whole_builtins 0
              (JObj [(''SessionGUID'', JStr guid), (''LogoffProcType'', JStr ''Logoff'')]))"

text \<open>
  Exports one after the other, as successive iterations of \<open>run\<close> make them; that the
  send of each of them fails; and the breaker's count of failures in a row: after \<open>n\<close>
  failures a closed breaker has counted at least \<open>n\<close> and fewer than \<open>fail_max\<close>.
\<close>

fun export_all :: "'f env \<Rightarrow> 'f span list list \<Rightarrow> 'f pipeline \<Rightarrow> 'f pipeline" where
  "export_all E [] st = st"
| "export_all E (b # bs) st = export_all E bs (export E b st)"

fun sends_fail :: "'f env \<Rightarrow> 'f span list list \<Rightarrow> 'f pipeline \<Rightarrow> bool" where
  "sends_fail E [] st = True"
| "sends_fail E (b # bs) st =
     (fst (send_batch E b st) \<noteq> None \<and> sends_fail E bs (export E b st))"

definition strikes :: "nat \<Rightarrow> 'f pipeline \<Rightarrow> bool" where
  "strikes n st = (case breaker st of Open t \<Rightarrow> True | Closed k \<Rightarrow> n \<le> k \<and> (0 < n \<longrightarrow> k < fail_max))"

text \<open>The size that a dispatched batch is to have.\<close>

definition well_sized :: "config \<Rightarrow> 'f span list \<Rightarrow> bool" where
  "well_sized C b = (b \<noteq> [] \<and> int (length b) \<le> max 1 (BATCH_SIZE C))"

text \<open>
  For stating when a batch fills. The spans that the next \<open>n\<close> gets can draw on: the queue
  and what producers put by the time each of these gets resolves. Each of the next
  \<open>BATCH_SIZE + 1\<close> gets finds a span. Each loop test of the collection that starts in
  this state finds the window open: the test of the \<open>i\<close>-th round is the reading number
  \<open>2 i - 1\<close> after the one that starts the window.
\<close>

definition arrived :: "'f env \<Rightarrow> 'f pipeline \<Rightarrow> nat \<Rightarrow> 'f span list" where
  "arrived E st n =
     span_queue st @ concat (map (arrivals E) [queue_gets st ..< queue_gets st + n])"

definition spans_available :: "config \<Rightarrow> 'f env \<Rightarrow> 'f pipeline \<Rightarrow> bool" where
  "spans_available C E st =
     list_all (\<lambda>i. i < length (arrived E st (Suc i))) [0 ..< Suc (nat (BATCH_SIZE C))]"

definition window_open :: "config \<Rightarrow> 'f env \<Rightarrow> 'f pipeline \<Rightarrow> bool" where
  "window_open C E st =
     list_all (\<lambda>i. clock E (clock_reads st + 2 * i - 1) - clock E (clock_reads st) < BATCH_TIMEOUT C)
       [1 ..< nat (BATCH_SIZE C)]"

text \<open>
  Two more environments for evaluating examples: one with spans that arrive over time and
  a clock that moves, and one whose clock jumps by 0.3 seconds after its second reading.
\<close>

definition busy_env :: "int env" where
  "busy_env =
     \<lparr> clock = (\<lambda>k. if k = 0 then 0 else if k \<le> 2 then 50000000
                    else if k = 3 then 1050000000 else if k \<le> 6 then 1060000000
                    else 1300000000),
       arrivals = (\<lambda>k. if k = 1 then [logon_span ''b''] else if k = 2 then [logon_span ''c'']
                       else []),
       endpoint = (\<lambda>k. True),
       sink = (\<lambda>k. True) \<rparr>"

definition jump_env :: "int env" where
  "jump_env =
     \<lparr> clock = (\<lambda>k. if k < 2 then 0 else 300000000),
       arrivals = (\<lambda>k. []),
       endpoint = (\<lambda>k. True),
       sink = (\<lambda>k. True) \<rparr>"

section \<open>Facts about the conversions and the span builder\<close>

lemma bind_err_Inr: "bind_err m f = Inr y \<longleftrightarrow> (\<exists>x. m = Inr x \<and> f x = Inr y)"
  by (cases m) (simp_all add: bind_err_def)

lemma bind_err_InrE:
  assumes "bind_err m f = Inr y"
  obtains x where "m = Inr x" and "f x = Inr y"
  using assms by (cases m) (simp_all add: bind_err_def)

lemma less_16_cases:
  "n < 16 \<Longrightarrow> n \<in> {0, 1, 2, 3, 4, 5, 6, 7, 8, 9, 10, 11, 12, 13, 14, 15::nat}"
  by (auto, arith)

lemma hexdigits_nth: "n < 16 \<Longrightarrow> is_hex_digit (hexdigits ! n)"
  by (drule less_16_cases) (auto simp: hexdigits_def is_hex_digit_def)

lemma hex_digit_value_nth: "n < 16 \<Longrightarrow> hex_digit_value (hexdigits ! n) = n"
  by (drule less_16_cases) (auto simp: hex_digit_value_def hexdigits_def)

lemma hex_value_snoc: "hex_value (s @ [c]) = 16 * hex_value s + hex_digit_value c"
  by (simp add: hex_value_def)

lemma hex_value_hex_of_nat: "hex_value (hex_of_nat n) = n"
proof (induction n rule: hex_of_nat.induct)
  case (1 n)
  show ?case
  proof (cases "n < 16")
    case True
    then show ?thesis
      by (subst hex_of_nat.simps) (simp add: hex_value_def hex_digit_value_nth)
  next
    case False
    then have "hex_value (hex_of_nat (n div 16)) = n div 16" using 1 by simp
    with False show ?thesis
      by (subst hex_of_nat.simps) (simp add: hex_value_snoc hex_digit_value_nth)
  qed
qed

lemma hex_of_nat_digits: "list_all is_hex_digit (hex_of_nat n)"
proof (induction n rule: hex_of_nat.induct)
  case (1 n)
  show ?case
  proof (cases "n < 16")
    case True
    then show ?thesis
      by (subst hex_of_nat.simps) (simp add: hexdigits_nth)
  next
    case False
    then have "list_all is_hex_digit (hex_of_nat (n div 16))" using 1 by simp
    with False show ?thesis
      by (subst hex_of_nat.simps) (simp add: hexdigits_nth)
  qed
qed

lemma length_hex_of_nat: "n < 16 ^ Suc k \<Longrightarrow> length (hex_of_nat n) \<le> Suc k"
proof (induction k arbitrary: n)
  case 0
  then show ?case by (subst hex_of_nat.simps) simp
next
  case (Suc k)
  show ?case
  proof (cases "n < 16")
    case True
    then show ?thesis by (subst hex_of_nat.simps) simp
  next
    case False
    from Suc.prems have "n < 16 * 16 ^ Suc k" by simp
    then have "n div 16 < 16 ^ Suc k"
      by (metis less_mult_imp_div_less mult.commute)
    then have "length (hex_of_nat (n div 16)) \<le> Suc k" by (rule Suc.IH)
    with False show ?thesis by (subst hex_of_nat.simps) simp
  qed
qed

lemma hex_value_zeros: "hex_value (replicate k (CHR ''0'') @ s) = hex_value s"
proof (induction k)
  case 0
  then show ?case by simp
next
  case (Suc k)
  have z: "hex_digit_value (CHR ''0'') = 0" by (simp add: hex_digit_value_def hexdigits_def)
  have "hex_value (CHR ''0'' # t) = hex_value t" for t
    by (simp add: hex_value_def z)
  with Suc show ?case by simp
qed

lemma zero_is_hex_digit: "is_hex_digit (CHR ''0'')"
  by (simp add: is_hex_digit_def hexdigits_def)

lemma is_hex16_format:
  assumes "0 \<le> n" "n < 2 ^ 64"
  shows "is_hex16 (format_016x n) n"
proof -
  have "(2::int) ^ 64 = int (16 ^ Suc 15)" by simp
  then have "nat n < 16 ^ Suc 15" using assms by linarith
  then have len: "length (hex_of_nat (nat n)) \<le> 16"
    using length_hex_of_nat[of "nat n" 15] by simp
  have "length (zfill 16 (hex_of_nat (nat n))) = 16" using len by (simp add: zfill_def)
  moreover have "list_all is_hex_digit (zfill 16 (hex_of_nat (nat n)))"
    using hex_of_nat_digits[of "nat n"] zero_is_hex_digit
    by (auto simp: zfill_def list_all_iff)
  moreover have "hex_value (zfill 16 (hex_of_nat (nat n))) = nat n"
    by (simp add: zfill_def hex_value_zeros hex_value_hex_of_nat)
  ultimately show ?thesis using assms by (simp add: is_hex16_def format_016x_def)
qed


lemma replicate_numeral_unfold: "replicate (numeral k) x = x # replicate (pred_numeral k) x"
  by (simp add: numeral_eq_Suc)

lemmas format_eval = format_016x_def zfill_def hex_of_nat.simps hexdigits_def replicate_numeral_unfold

lemma format_016x_of_100: "format_016x 100 = ''0000000000000064''"
  by (simp add: format_eval)

lemma format_016x_of_0: "format_016x 0 = ''0000000000000000''"
  by (simp add: format_eval)

lemma format_016x_of_minus_1: "format_016x (-1) = ''-000000000000001''"
  by (simp add: format_eval)

lemma format_016x_of_2_pow_64: "format_016x 18446744073709551616 = ''10000000000000000''"
  by (simp add: format_eval)

lemma build_span_dict_fields:
  assumes "build_span_dict B now d = Inr m"
  shows "\<exists>guid pid ppid.
           dict_get d ''SessionGUID'' (JStr '''') = JStr guid
         \<and> py_int B (dict_get d ''ProcID'' (JInt 0)) = Inr pid
         \<and> py_int B (dict_get d ''ProcParentID'' (JInt 0)) = Inr ppid
         \<and> priv_guid m = guid
         \<and> priv_trace_id m = make_trace_id (dict_has d ''LogoffProcType'') guid
         \<and> traceId (the_span m) = priv_trace_id m
         \<and> spanId (the_span m) = format_016x pid
         \<and> parentSpanId (the_span m) = (if ppid \<noteq> 0 then format_016x ppid else '''')"
  using assms unfolding build_span_dict_def Let_def
  apply (elim bind_err_InrE)
  apply (cases "dict_get d ''SessionGUID'' (JStr [])"; simp)
  apply (elim bind_err_InrE)
  apply (auto simp: the_span_def bind_err_Inr split: if_splits)
  done

lemma length_make_trace_id: "length (make_trace_id b guid) = 32"
  by (simp add: make_trace_id_def)

lemma make_trace_id_differs: "make_trace_id True guid \<noteq> make_trace_id False guid"
  by (simp add: make_trace_id_def)

lemma make_trace_id_hex:
  assumes "list_all hex_or_dash guid"
  shows "list_all is_hex_char (make_trace_id b guid)"
proof -
  have a: "list_all is_hex_char (remove_dashes guid)"
    using assms by (induction guid) (auto simp: remove_dashes_def hex_or_dash_def)
  have z: "is_hex_char (CHR ''0'')" "is_hex_char (CHR ''1'')" "is_hex_char (CHR ''2'')"
    by (simp_all add: is_hex_char_def)
  have "list_all is_hex_char (c # remove_dashes guid @ replicate 31 (CHR ''0''))" if "is_hex_char c" for c
    using a z that by (auto simp: list_all_iff)
  then have "list_all is_hex_char (take 32 (c # remove_dashes guid @ replicate 31 (CHR ''0'')))" if "is_hex_char c" for c
    using that by (metis list_all_iff in_set_takeD)
  then show ?thesis using z by (simp add: make_trace_id_def)
qed

lemma hex_digit_value_inj:
  "is_hex_digit c \<Longrightarrow> is_hex_digit c' \<Longrightarrow> hex_digit_value c = hex_digit_value c' \<Longrightarrow> c = c'"
  by (auto simp: is_hex_digit_def hexdigits_def hex_digit_value_def split: if_splits)

lemma hex_digit_value_less: "is_hex_digit c \<Longrightarrow> hex_digit_value c < 16"
  by (auto simp: is_hex_digit_def hexdigits_def hex_digit_value_def)

lemma hex_value_inj:
  "length s = length t \<Longrightarrow> list_all is_hex_digit s \<Longrightarrow> list_all is_hex_digit t
     \<Longrightarrow> hex_value s = hex_value t \<Longrightarrow> s = t"
proof (induction s arbitrary: t rule: rev_induct)
  case Nil
  then show ?case by simp
next
  case (snoc c s)
  then obtain t' c' where t: "t = t' @ [c']"
    by (cases t rule: rev_cases) auto
  have lt: "hex_digit_value c < 16" "hex_digit_value c' < 16"
    using snoc.prems t by (auto simp: hex_digit_value_less)
  have eq: "16 * hex_value s + hex_digit_value c = 16 * hex_value t' + hex_digit_value c'"
    using snoc.prems(4) t by (simp add: hex_value_snoc)
  have "hex_value s = hex_value t'" "hex_digit_value c = hex_digit_value c'"
    using eq lt by arith+
  then show ?case
    using snoc.IH[of t'] snoc.prems t by (auto dest: hex_digit_value_inj)
qed

lemma is_hex16_unique: "is_hex16 s n \<Longrightarrow> is_hex16 t n \<Longrightarrow> s = t"
  by (auto simp: is_hex16_def intro: hex_value_inj)

lemma build_span_fields:
  assumes "build_span B now (JObj d) = Inr m"
  shows "\<exists>guid pid ppid.
           dict_get d ''SessionGUID'' (JStr '''') = JStr guid
         \<and> py_int B (dict_get d ''ProcID'' (JInt 0)) = Inr pid
         \<and> py_int B (dict_get d ''ProcParentID'' (JInt 0)) = Inr ppid
         \<and> priv_guid m = guid
         \<and> priv_trace_id m = make_trace_id (dict_has d ''LogoffProcType'') guid
         \<and> traceId (the_span m) = priv_trace_id m
         \<and> spanId (the_span m) = format_016x pid
         \<and> parentSpanId (the_span m) = (if ppid \<noteq> 0 then format_016x ppid else '''')"
  using assms build_span_dict_fields[of B now d m] by (simp add: build_span_def)

lemmas build_eval = build_span_def build_span_dict_def dict_get_def dict_has_def bind_err_def
  whole_builtins_def Let_def


section \<open>Identifiers of a built span\<close>

text \<open>
  Claim C1, as the code has it. For two records that \<open>build_span\<close> turns into spans and
  that carry the same \<open>SessionGUID\<close>: the trace id has 32 characters and is also the
  \<open>traceId\<close> of the inner span; with the same event type (both with, or both without,
  \<open>LogoffProcType\<close>) the two trace ids are equal, whatever the clock and the other fields
  are; with different event types they differ; and the trace id consists of hexadecimal
  digits whenever the \<open>SessionGUID\<close> consists of hexadecimal digits and hyphens.
\<close>

theorem trace_id_pure_function:
  assumes "build_span B now (JObj d) = Inr m"
    and "build_span B' now' (JObj d') = Inr m'"
    and "dict_get d ''SessionGUID'' (JStr '''') = dict_get d' ''SessionGUID'' (JStr '''')"
  shows "length (priv_trace_id m) = 32
       \<and> traceId (the_span m) = priv_trace_id m
       \<and> (dict_has d ''LogoffProcType'' = dict_has d' ''LogoffProcType''
            \<longrightarrow> priv_trace_id m = priv_trace_id m')
       \<and> (dict_has d ''LogoffProcType'' \<noteq> dict_has d' ''LogoffProcType''
            \<longrightarrow> priv_trace_id m \<noteq> priv_trace_id m')
       \<and> (dict_get d ''SessionGUID'' (JStr '''') = JStr guid \<longrightarrow> list_all hex_or_dash guid
            \<longrightarrow> list_all is_hex_char (priv_trace_id m))"
proof -
  from build_span_fields[OF assms(1)] obtain g where
    g: "dict_get d ''SessionGUID'' (JStr '''') = JStr g"
       "priv_trace_id m = make_trace_id (dict_has d ''LogoffProcType'') g"
       "traceId (the_span m) = priv_trace_id m"
    by blast
  from build_span_fields[OF assms(2)] obtain g' where
    g': "dict_get d' ''SessionGUID'' (JStr '''') = JStr g'"
        "priv_trace_id m' = make_trace_id (dict_has d' ''LogoffProcType'') g'"
    by blast
  have same: "g' = g" using g(1) g'(1) assms(3) by simp
  have differ: "make_trace_id a g \<noteq> make_trace_id b g" if "a \<noteq> b" for a b
    using that make_trace_id_differs[of g] by (cases a; cases b) auto
  show ?thesis
    using g g' same differ
    by (auto simp: length_make_trace_id make_trace_id_hex)
qed

text \<open>The record of the specification's scenario and a logoff record of the same session.\<close>

theorem trace_id_pure_function_witness:
  "\<exists>m m'. build_span whole_builtins 1700000000000000000
             (JObj [(''SessionGUID'', JStr ''abcd1234-0000-0000-0000-000000000000''),
                    (''ProcID'', JInt 100), (''ProcParentID'', JInt 0),
                    (''ProcName'', JStr ''explorer.exe''), (''ProcLifetimeMs'', JInt 5000),
                    (''LogonProcType'', JStr ''Interactive'')]) = Inr m
         \<and> build_span whole_builtins 1700000000000000007
             (JObj [(''SessionGUID'', JStr ''abcd1234-0000-0000-0000-000000000000''),
                    (''ProcID'', JInt 200), (''LogoffProcType'', JStr ''Interactive'')]) = Inr m'
         \<and> length (priv_trace_id m) = 32
         \<and> traceId (the_span m) = priv_trace_id m
         \<and> priv_trace_id m \<noteq> priv_trace_id m'
         \<and> list_all is_hex_char (priv_trace_id m)"
proof -
  let ?d = "[(''SessionGUID'', JStr ''abcd1234-0000-0000-0000-000000000000''),
             (''ProcID'', JInt 100), (''ProcParentID'', JInt 0),
             (''ProcName'', JStr ''explorer.exe''), (''ProcLifetimeMs'', JInt 5000),
             (''LogonProcType'', JStr ''Interactive'')] :: (string \<times> int json) list"
  let ?d' = "[(''SessionGUID'', JStr ''abcd1234-0000-0000-0000-000000000000''),
              (''ProcID'', JInt 200), (''LogoffProcType'', JStr ''Interactive'')]
             :: (string \<times> int json) list"
  obtain m where m: "build_span whole_builtins 1700000000000000000 (JObj ?d) = Inr m"
    by (simp add: build_eval)
  obtain m' where m': "build_span whole_builtins 1700000000000000007 (JObj ?d') = Inr m'"
    by (simp add: build_eval)
  have same: "dict_get ?d ''SessionGUID'' (JStr '''') = dict_get ?d' ''SessionGUID'' (JStr '''')"
    by (simp add: dict_get_def)
  have g: "dict_get ?d ''SessionGUID'' (JStr '''') = JStr ''abcd1234-0000-0000-0000-000000000000''"
    by (simp add: dict_get_def)
  have h: "list_all hex_or_dash ''abcd1234-0000-0000-0000-000000000000''"
    by (simp add: hex_or_dash_def is_hex_char_def)
  have ne: "dict_has ?d ''LogoffProcType'' \<noteq> dict_has ?d' ''LogoffProcType''"
    by (simp add: dict_has_def)
  show ?thesis
    using trace_id_pure_function[OF m m' same, of "''abcd1234-0000-0000-0000-000000000000''"]
      m m' g h ne
    by blast
qed

text \<open>
  Claim C1 as stated fails on a \<open>SessionGUID\<close> that is not made of hexadecimal digits: the
  characters are copied into the trace id as they are.
\<close>

theorem trace_id_not_hex_counterexample:
  "map_sum id priv_trace_id
     (build_span whole_builtins 0 (JObj [(''SessionGUID'', JStr ''xyz'')]))
     = Inr ''1xyz0000000000000000000000000000''
   \<and> \<not> list_all is_hex_char ''1xyz0000000000000000000000000000''"
  by (simp add: build_eval make_trace_id_def remove_dashes_def is_hex_char_def
        replicate_numeral_unfold)

text \<open>
  Claim C2, as the code has it. For a record that \<open>build_span\<close> turns into a span and whose
  \<open>ProcID\<close> is the integer \<open>n\<close>, the \<open>spanId\<close> is \<open>format(n, '016x')\<close>; for
  \<open>0 \<le> n < 2^64\<close> that is the string of 16 lowercase hexadecimal digits whose value is
  \<open>n\<close>. \<open>ProcID\<close> 100 gives \<open>0000000000000064\<close>, and a record without \<open>ProcID\<close> gives
  sixteen zeros.
\<close>

theorem span_id_of_proc_id:
  assumes "build_span B now (JObj d) = Inr m"
  shows "(map_of d ''ProcID'' = Some (JInt n) \<longrightarrow>
            spanId (the_span m) = format_016x n
          \<and> (0 \<le> n \<and> n < 2 ^ 64 \<longrightarrow> is_hex16 (spanId (the_span m)) n))
       \<and> (map_of d ''ProcID'' = Some (JInt 100) \<longrightarrow> spanId (the_span m) = ''0000000000000064'')
       \<and> (map_of d ''ProcID'' = None \<longrightarrow> spanId (the_span m) = ''0000000000000000'')"
proof -
  from build_span_fields[OF assms] obtain pid where
    p: "py_int B (dict_get d ''ProcID'' (JInt 0)) = Inr pid" "spanId (the_span m) = format_016x pid"
    by blast
  show ?thesis
    using p by (auto simp: dict_get_def is_hex16_format format_016x_of_100 format_016x_of_0)
qed

text \<open>The record of the specification's scenario.\<close>

theorem span_id_of_proc_id_witness:
  "\<exists>m. build_span whole_builtins 1700000000000000000
             (JObj [(''SessionGUID'', JStr ''abcd1234-0000-0000-0000-000000000000''),
                    (''ProcID'', JInt 100), (''ProcParentID'', JInt 0),
                    (''ProcName'', JStr ''explorer.exe''), (''ProcLifetimeMs'', JInt 5000),
                    (''LogonProcType'', JStr ''Interactive'')]) = Inr m
       \<and> spanId (the_span m) = ''0000000000000064''
       \<and> is_hex16 (spanId (the_span m)) 100"
proof -
  let ?d = "[(''SessionGUID'', JStr ''abcd1234-0000-0000-0000-000000000000''),
             (''ProcID'', JInt 100), (''ProcParentID'', JInt 0),
             (''ProcName'', JStr ''explorer.exe''), (''ProcLifetimeMs'', JInt 5000),
             (''LogonProcType'', JStr ''Interactive'')] :: (string \<times> int json) list"
  obtain m where m: "build_span whole_builtins 1700000000000000000 (JObj ?d) = Inr m"
    by (simp add: build_eval)
  have k: "map_of ?d ''ProcID'' = Some (JInt 100)"
    by simp
  show ?thesis
    using span_id_of_proc_id[OF m, of 100] m k by auto
qed

text \<open>
  Claim C2 as stated fails outside that range: a negative \<open>ProcID\<close> gives a sign followed
  by 15 digits, and \<open>2^64\<close> gives 17 digits.
\<close>

theorem span_id_out_of_range_counterexample:
  "on_span spanId (build_span whole_builtins 0 (JObj [(''ProcID'', JInt (- 1))]))
     = Inr ''-000000000000001''
   \<and> \<not> is_hex16 ''-000000000000001'' (- 1)
   \<and> on_span spanId (build_span whole_builtins 0 (JObj [(''ProcID'', JInt 18446744073709551616)]))
     = Inr ''10000000000000000''
   \<and> length ''10000000000000000'' = 17"
  by (simp add: build_eval on_span_def the_span_def format_016x_of_minus_1 format_016x_of_2_pow_64 is_hex16_def is_hex_digit_def
        hexdigits_def)

text \<open>
  Claim C3, as the code has it. For a record that \<open>build_span\<close> turns into a span: without
  \<open>ProcParentID\<close>, or with \<open>ProcParentID\<close> 0, the \<open>parentSpanId\<close> is empty; with a nonzero
  integer \<open>p\<close> it is \<open>format(p, '016x')\<close>, which for \<open>0 < p < 2^64\<close> is the string of 16
  lowercase hexadecimal digits whose value is \<open>p\<close>.
\<close>

theorem parent_span_id_of_parent_id:
  assumes "build_span B now (JObj d) = Inr m"
  shows "(map_of d ''ProcParentID'' = None \<or> map_of d ''ProcParentID'' = Some (JInt 0)
            \<longrightarrow> parentSpanId (the_span m) = '''')
       \<and> (map_of d ''ProcParentID'' = Some (JInt p) \<and> p \<noteq> 0 \<longrightarrow>
            parentSpanId (the_span m) = format_016x p
          \<and> (0 < p \<and> p < 2 ^ 64 \<longrightarrow> is_hex16 (parentSpanId (the_span m)) p))"
proof -
  from build_span_fields[OF assms] obtain ppid where
    p: "py_int B (dict_get d ''ProcParentID'' (JInt 0)) = Inr ppid"
       "parentSpanId (the_span m) = (if ppid \<noteq> 0 then format_016x ppid else '''')"
    by blast
  show ?thesis
    using p by (auto simp: dict_get_def is_hex16_format)
qed

text \<open>A root process and a child of process 100.\<close>

theorem parent_span_id_of_parent_id_witness:
  "\<exists>m m'. build_span whole_builtins 0 (JObj [(''ProcID'', JInt 100), (''ProcParentID'', JInt 0)])
             = Inr m
         \<and> build_span whole_builtins 0 (JObj [(''ProcID'', JInt 101), (''ProcParentID'', JInt 100)])
             = Inr m'
         \<and> parentSpanId (the_span m) = ''''
         \<and> parentSpanId (the_span m') = format_016x 100
         \<and> is_hex16 (parentSpanId (the_span m')) 100"
proof -
  let ?d = "[(''ProcID'', JInt 100), (''ProcParentID'', JInt 0)] :: (string \<times> int json) list"
  let ?d' = "[(''ProcID'', JInt 101), (''ProcParentID'', JInt 100)] :: (string \<times> int json) list"
  obtain m where m: "build_span whole_builtins 0 (JObj ?d) = Inr m"
    by (simp add: build_eval)
  obtain m' where m': "build_span whole_builtins 0 (JObj ?d') = Inr m'"
    by (simp add: build_eval)
  have k: "map_of ?d ''ProcParentID'' = Some (JInt 0)" "map_of ?d' ''ProcParentID'' = Some (JInt 100)"
    by simp_all
  show ?thesis
    using parent_span_id_of_parent_id[OF m, of 0] parent_span_id_of_parent_id[OF m', of 100] m m' k
    by auto
qed

text \<open>
  Claim C3 as stated fails outside that range, in the same two ways as the span id.
\<close>

theorem parent_span_id_out_of_range_counterexample:
  "on_span parentSpanId (build_span whole_builtins 0 (JObj [(''ProcParentID'', JInt (- 1))]))
     = Inr ''-000000000000001''
   \<and> \<not> is_hex16 ''-000000000000001'' (- 1)
   \<and> on_span parentSpanId
       (build_span whole_builtins 0 (JObj [(''ProcParentID'', JInt 18446744073709551616)]))
     = Inr ''10000000000000000''
   \<and> length ''10000000000000000'' = 17"
  by (simp add: build_eval on_span_def the_span_def format_016x_of_minus_1 format_016x_of_2_pow_64 is_hex16_def is_hex_digit_def
        hexdigits_def)

section \<open>The worker on lines that yield no span\<close>

lemma worker_body_failure:
  "loads line = Inl e \<or> (\<exists>v. loads line = Inr v \<and> build_span B now v = Inl e)
     \<Longrightarrow> worker_body B loads now line st = Inl e"
  by (auto simp: worker_body_def bind_err_def)

lemma worker_body_success:
  "loads line = Inr v \<Longrightarrow> build_span B now v = Inr m
     \<Longrightarrow> worker_body B loads now line st =
           Inr (st\<lparr>records_parsed := records_parsed st + 1, span_queue := span_queue st @ [m]\<rparr>)"
  by (simp add: worker_body_def bind_err_def)

lemma worker_iter_failure:
  assumes "worker_body B loads now line (st\<lparr>records_received := records_received st + 1\<rparr>) = Inl e"
  shows "worker_iter B loads now line st =
           Inr (st\<lparr>records_received := records_received st + 1,
                    error_log := error_log st @ [e],
                    span_queue_size := length (span_queue st)\<rparr>)"
  using assms by (simp add: worker_iter_def Let_def)

lemma worker_iter_counters:
  "\<exists>st'. worker_iter B loads now line st = Inr st'
       \<and> records_received st' = records_received st + 1
       \<and> (records_parsed st' = records_parsed st \<or> records_parsed st' = records_parsed st + 1)"
proof (cases "loads line")
  case (Inl e)
  then show ?thesis
    by (simp add: worker_iter_def Let_def worker_body_def bind_err_def)
next
  case (Inr v)
  then show ?thesis
    by (cases "build_span B now v") (simp_all add: worker_iter_def Let_def worker_body_def bind_err_def)
qed

lemma worker_step_invariant:
  assumes "records_parsed st \<le> records_received st"
  shows "\<exists>st'. worker_step B loads now st = Inr st' \<and> records_parsed st' \<le> records_received st'"
proof (cases "recv_queue st")
  case Nil
  then show ?thesis using assms by (simp add: worker_step_def)
next
  case (Cons line rest)
  from worker_iter_counters[of B loads now line "st\<lparr>recv_queue := rest\<rparr>"]
  obtain st' where "worker_iter B loads now line (st\<lparr>recv_queue := rest\<rparr>) = Inr st'"
    "records_received st' = records_received st + 1"
    "records_parsed st' = records_parsed st \<or> records_parsed st' = records_parsed st + 1"
    by auto
  then show ?thesis using assms Cons by (auto simp: worker_step_def)
qed

lemma worker_invariant:
  "records_parsed st \<le> records_received st
     \<Longrightarrow> \<exists>st'. worker B loads nows st = Inr st' \<and> records_parsed st' \<le> records_received st'"
proof (induction nows arbitrary: st)
  case Nil
  then show ?case by simp
next
  case (Cons now nows)
  from worker_step_invariant[OF Cons.prems, of B loads now]
  obtain st1 where s: "worker_step B loads now st = Inr st1" "records_parsed st1 \<le> records_received st1"
    by blast
  from Cons.IH[OF s(2)] s(1) show ?case by (simp add: bind_err_def)
qed

lemma build_span_not_object: "(\<forall>d. v \<noteq> JObj d) \<Longrightarrow> build_span B now v = Inl AttributeError"
  by (cases v) (simp_all add: build_span_def)

lemma build_span_bad_proc_id:
  assumes "py_int B (dict_get d ''ProcID'' (JInt 0)) = Inl e'"
  shows "\<exists>e. build_span B now (JObj d) = Inl e"
  using assms
  by (cases "py_int B (dict_get d ''ProcStartTimeRelativeMs'' (JInt 0))";
      cases "py_int B (dict_get d ''ProcLifetimeMs'' (JInt 0))")
     (simp_all add: build_span_def build_span_dict_def bind_err_def Let_def)

text \<open>
  Claim C4. When the worker dequeues a line that the decoder rejects, the iteration ends
  normally and leaves the state as it was but for: the line is off the ingest queue, the
  received-record counter is one higher, the error is logged, and the gauge is refreshed.
  So the parsed-record counter is not incremented and no span is put on the span queue.
\<close>

theorem worker_drops_invalid_json:
  assumes "recv_queue st = line # rest" and "loads line = Inl e"
  shows "worker_step B loads now st =
           Inr (st\<lparr>recv_queue := rest,
                    records_received := records_received st + 1,
                    error_log := error_log st @ [e],
                    span_queue_size := length (span_queue st)\<rparr>)"
proof -
  have "worker_body B loads now line (st\<lparr>recv_queue := rest, records_received := records_received st + 1\<rparr>) = Inl e"
    using assms(2) by (simp add: worker_body_failure)
  then show ?thesis
    using assms(1) worker_iter_failure[of B loads now line "st\<lparr>recv_queue := rest\<rparr>" e]
    by (simp add: worker_step_def)
qed

text \<open>The worker on the line \<open>not json\<close>, from the state at start-up.\<close>

theorem worker_drops_invalid_json_witness:
  "worker_step whole_builtins sample_loads 0 (initial\<lparr>recv_queue := [''not json'']\<rparr>) =
     Inr (initial\<lparr>records_received := 1, error_log := [JSONDecodeError]\<rparr>)
   \<and> records_received (initial\<lparr>records_received := 1, error_log := [JSONDecodeError]\<rparr> :: int pipeline) = 1
   \<and> records_parsed (initial\<lparr>records_received := 1, error_log := [JSONDecodeError]\<rparr> :: int pipeline) = 0
   \<and> span_queue (initial\<lparr>records_received := 1, error_log := [JSONDecodeError]\<rparr> :: int pipeline) = []"
proof -
  have q: "recv_queue (initial\<lparr>recv_queue := [''not json'']\<rparr> :: int pipeline) = ''not json'' # []"
    by simp
  have l: "sample_loads ''not json'' = Inl JSONDecodeError"
    by (simp add: sample_loads_def)
  show ?thesis
    using worker_drops_invalid_json[of "initial\<lparr>recv_queue := [''not json'']\<rparr>" "''not json''" "[]"
        sample_loads JSONDecodeError whole_builtins 0] q l
    by (simp add: initial_def)
qed

text \<open>
  Claim C10. When the dequeued line decodes but \<open>build_span\<close> raises, the iteration ends
  normally in the same state as after a decode failure (the logged error apart): received
  is one higher, parsed and the span queue are unchanged. A decoded value that is not an
  object makes \<open>build_span\<close> raise, and so does a \<open>ProcID\<close> string that \<open>int\<close> rejects.
  Every run of the worker loop ends normally and keeps the parsed-record counter at or
  below the received-record counter.
\<close>

theorem worker_drops_unbuildable_record:
  "(recv_queue st = line # rest \<and> loads line = Inr v \<and> build_span B now v = Inl e \<longrightarrow>
      worker_step B loads now st =
        Inr (st\<lparr>recv_queue := rest,
                 records_received := records_received st + 1,
                 error_log := error_log st @ [e],
                 span_queue_size := length (span_queue st)\<rparr>))
   \<and> ((\<forall>d. v \<noteq> JObj d) \<longrightarrow> build_span B now v = Inl AttributeError)
   \<and> (map_of d ''ProcID'' = Some (JStr s) \<and> int_of_str B s = Inl e' \<longrightarrow>
        (\<exists>e. build_span B now (JObj d) = Inl e))
   \<and> (records_parsed st \<le> records_received st \<longrightarrow>
        (\<exists>st'. worker B loads nows st = Inr st' \<and> records_parsed st' \<le> records_received st'))"
proof -
  have a: "worker_step B loads now st =
        Inr (st\<lparr>recv_queue := rest,
                 records_received := records_received st + 1,
                 error_log := error_log st @ [e],
                 span_queue_size := length (span_queue st)\<rparr>)"
    if "recv_queue st = line # rest" "loads line = Inr v" "build_span B now v = Inl e"
  proof -
    have "worker_body B loads now line (st\<lparr>recv_queue := rest, records_received := records_received st + 1\<rparr>) = Inl e"
      using that by (simp add: worker_body_failure)
    then show ?thesis
      using that(1) worker_iter_failure[of B loads now line "st\<lparr>recv_queue := rest\<rparr>" e]
      by (simp add: worker_step_def)
  qed
  have c: "\<exists>e. build_span B now (JObj d) = Inl e"
    if "map_of d ''ProcID'' = Some (JStr s)" "int_of_str B s = Inl e'"
    using that build_span_bad_proc_id[of B d e' now] by (simp add: dict_get_def)
  show ?thesis
    using a c build_span_not_object[of v B now] worker_invariant[of st B loads nows]
    by blast
qed

text \<open>
  The worker on the line \<open>[1]\<close>; the two examples of the claim; a run over three lines.
\<close>

theorem worker_drops_unbuildable_record_witness:
  "worker_step whole_builtins sample_loads 0 (initial\<lparr>recv_queue := [''[1]'']\<rparr>) =
     Inr (initial\<lparr>records_received := 1, error_log := [AttributeError]\<rparr>)
   \<and> build_span whole_builtins 0 (JArr [JInt 1]) = Inl AttributeError
   \<and> (\<exists>e. build_span whole_builtins 0 (JObj [(''ProcID'', JStr ''abc'')]) = Inl e)
   \<and> (\<exists>st'. worker whole_builtins sample_loads [0, 1, 2]
              (initial\<lparr>recv_queue := [''{\"ProcID\":100}'', ''not json'', ''{\"ProcID\":\"abc\"}'']\<rparr>) = Inr st'
          \<and> records_parsed st' \<le> records_received st')"
proof -
  have q: "recv_queue (initial\<lparr>recv_queue := [''[1]'']\<rparr> :: int pipeline) = ''[1]'' # []"
    by simp
  have l: "sample_loads ''[1]'' = Inr (JArr [JInt 1])"
    by (simp add: sample_loads_def)
  have b: "build_span whole_builtins 0 (JArr [JInt 1 :: int json]) = Inl AttributeError"
    by (simp add: build_span_def)
  have n: "\<forall>d. JArr [JInt 1 :: int json] \<noteq> JObj d"
    by simp
  have p: "map_of [(''ProcID'', JStr ''abc'' :: int json)] ''ProcID'' = Some (JStr ''abc'')"
    by simp
  have i: "int_of_str whole_builtins ''abc'' = Inl ValueError"
    by (simp add: whole_builtins_def parse_decimal_def decdigits_def)
  have r: "records_parsed (initial :: int pipeline) \<le> records_received (initial :: int pipeline)"
    by (simp add: initial_def)
  have r': "records_parsed (initial\<lparr>recv_queue := [''{\"ProcID\":100}'', ''not json'', ''{\"ProcID\":\"abc\"}'']\<rparr> :: int pipeline)
        \<le> records_received (initial\<lparr>recv_queue := [''{\"ProcID\":100}'', ''not json'', ''{\"ProcID\":\"abc\"}'']\<rparr> :: int pipeline)"
    by (simp add: initial_def)
  note t = worker_drops_unbuildable_record[of "initial\<lparr>recv_queue := [''[1]'']\<rparr>" "''[1]''" "[]"
      sample_loads "JArr [JInt 1]" whole_builtins 0 AttributeError]
  note t2 = worker_drops_unbuildable_record[of
      "initial\<lparr>recv_queue := [''{\"ProcID\":100}'', ''not json'', ''{\"ProcID\":\"abc\"}'']\<rparr>"
      "''x''" "[]" sample_loads "JArr [JInt 1]" whole_builtins 0 AttributeError
      "[(''ProcID'', JStr ''abc'')]" "''abc''" ValueError "[0, 1, 2]"]
  have 1: "worker_step whole_builtins sample_loads 0 (initial\<lparr>recv_queue := [''[1]'']\<rparr>) =
     Inr (initial\<lparr>records_received := 1, error_log := [AttributeError]\<rparr>)"
    using t q l b by (simp add: initial_def)
  have 3: "\<exists>e. build_span whole_builtins 0 (JObj [(''ProcID'', JStr ''abc'')]) = Inl e"
    using t2 p i by blast
  have 4: "\<exists>st'. worker whole_builtins sample_loads [0, 1, 2]
              (initial\<lparr>recv_queue := [''{\"ProcID\":100}'', ''not json'', ''{\"ProcID\":\"abc\"}'']\<rparr>) = Inr st'
          \<and> records_parsed st' \<le> records_received st'"
    using t2 r' by blast
  show ?thesis using 1 b 3 4 by blast
qed

section \<open>The socket reader and the lines of the stream\<close>

lemma split_newline_None: "split_newline buf = None \<longleftrightarrow> newline \<notin> set buf"
  by (induction buf) (auto split: option.splits)

lemma split_newline_Some:
  "split_newline buf = Some (line, rest) \<Longrightarrow> buf = line @ newline # rest \<and> newline \<notin> set line"
  by (induction buf arbitrary: line rest) (auto split: if_splits option.splits)

lemma is_line_split_Cons:
  "newline \<notin> set line \<Longrightarrow> is_line_split s lines rest
     \<Longrightarrow> is_line_split (line @ newline # s) (line # lines) rest"
  by (simp add: is_line_split_def)

lemma is_line_split_append:
  assumes "is_line_split a ls1 r1" and "is_line_split (r1 @ b) ls2 r2"
  shows "is_line_split (a @ b) (ls1 @ ls2) r2"
  using assms by (auto simp: is_line_split_def)

lemma drain_lines:
  "\<exists>lines. is_line_split buf lines (fst (drain buf st))
        \<and> snd (drain buf st) = st\<lparr>recv_queue := recv_queue st @ filter nonblank lines\<rparr>"
proof (induction buf st rule: drain.induct)
  case (1 buf st)
  show ?case
  proof (cases "split_newline buf")
    case None
    then have "is_line_split buf [] buf"
      by (simp add: is_line_split_def split_newline_None)
    with None show ?thesis
      by (subst (1 2) drain.simps) (auto intro!: exI[of _ "[]"])
  next
    case (Some p)
    obtain line rest where p: "p = (line, rest)" by (cases p)
    let ?st = "if strip line \<noteq> [] then st\<lparr>recv_queue := recv_queue st @ [line]\<rparr> else st"
    from 1[OF Some p[symmetric]] obtain lines where
      l: "is_line_split rest lines (fst (drain rest ?st))"
         "snd (drain rest ?st) = ?st\<lparr>recv_queue := recv_queue ?st @ filter nonblank lines\<rparr>"
      by blast
    have d: "drain buf st = drain rest ?st"
      using Some p by (subst drain.simps) simp
    have b: "buf = line @ newline # rest" "newline \<notin> set line"
      using split_newline_Some[of buf line rest] Some p by auto
    have "is_line_split buf (line # lines) (fst (drain buf st))"
      using is_line_split_Cons[OF b(2) l(1)] b(1) d by simp
    moreover have "snd (drain buf st) = st\<lparr>recv_queue := recv_queue st @ filter nonblank (line # lines)\<rparr>"
      using l(2) d by (simp add: nonblank_def)
    ultimately show ?thesis by blast
  qed
qed

lemma handle_client_lines_from:
  assumes "newline \<notin> set buf"
  shows "\<exists>lines. is_line_split (buf @ concat (takeWhile (\<lambda>data. data \<noteq> []) chunks)) lines
                  (fst (handle_client chunks buf st))
        \<and> snd (handle_client chunks buf st) = st\<lparr>recv_queue := recv_queue st @ filter nonblank lines\<rparr>"
  using assms
proof (induction chunks arbitrary: buf st)
  case Nil
  then have "is_line_split buf [] buf" by (simp add: is_line_split_def)
  then show ?case by (auto intro!: exI[of _ "[]"])
next
  case (Cons data chunks)
  show ?case
  proof (cases "data = []")
    case True
    from Cons.prems have "is_line_split buf [] buf" by (simp add: is_line_split_def)
    with True show ?thesis by (auto intro!: exI[of _ "[]"])
  next
    case False
    let ?buf = "fst (drain (buf @ data) st)" and ?st = "snd (drain (buf @ data) st)"
    from drain_lines[of "buf @ data" st] obtain ls1 where
      1: "is_line_split (buf @ data) ls1 ?buf"
         "?st = st\<lparr>recv_queue := recv_queue st @ filter nonblank ls1\<rparr>"
      by blast
    have nl: "newline \<notin> set ?buf" using 1(1) by (simp add: is_line_split_def)
    from Cons.IH[OF nl, of ?st] obtain ls2 where
      2: "is_line_split (?buf @ concat (takeWhile (\<lambda>data. data \<noteq> []) chunks)) ls2
            (fst (handle_client chunks ?buf ?st))"
         "snd (handle_client chunks ?buf ?st) = ?st\<lparr>recv_queue := recv_queue ?st @ filter nonblank ls2\<rparr>"
      by blast
    have "is_line_split ((buf @ data) @ concat (takeWhile (\<lambda>data. data \<noteq> []) chunks)) (ls1 @ ls2)
            (fst (handle_client chunks ?buf ?st))"
      using is_line_split_append[OF 1(1) 2(1)] .
    moreover have "snd (handle_client chunks ?buf ?st)
        = st\<lparr>recv_queue := recv_queue st @ filter nonblank (ls1 @ ls2)\<rparr>"
      using 2(2) 1(2) by simp
    ultimately show ?thesis using False by (auto intro!: exI[of _ "ls1 @ ls2"])
  qed
qed


lemma split_newline_line:
  "newline \<notin> set line \<Longrightarrow> split_newline (line @ newline # rest) = Some (line, rest)"
  by (induction line) auto

lemma drain_no_newline: "newline \<notin> set buf \<Longrightarrow> drain buf st = (buf, st)"
  by (subst drain.simps) (simp add: split_newline_None[symmetric])

lemma drain_line:
  "newline \<notin> set line \<Longrightarrow>
     drain (line @ newline # rest) st =
       drain rest (if strip line \<noteq> [] then st\<lparr>recv_queue := recv_queue st @ [line]\<rparr> else st)"
  by (subst drain.simps) (simp add: split_newline_line)

lemma handle_client_step:
  "data \<noteq> [] \<Longrightarrow> drain (buf @ data) st = (buf', st')
     \<Longrightarrow> handle_client (data # chunks) buf st = handle_client chunks buf' st'"
  by simp


lemma is_line_split_Nil: "is_line_split s [] r \<longleftrightarrow> s = r \<and> newline \<notin> set r"
  by (auto simp: is_line_split_def)

lemma is_line_split_Cons_iff:
  "is_line_split s (l # ls) r \<longleftrightarrow>
     (\<exists>s'. split_newline s = Some (l, s') \<and> is_line_split s' ls r)"
proof
  assume "is_line_split s (l # ls) r"
  then have "s = l @ newline # (concat (map (\<lambda>l. l @ [newline]) ls) @ r)" "newline \<notin> set l"
    "is_line_split (concat (map (\<lambda>l. l @ [newline]) ls) @ r) ls r"
    by (auto simp: is_line_split_def)
  then show "\<exists>s'. split_newline s = Some (l, s') \<and> is_line_split s' ls r"
    using split_newline_line[of l] by auto
next
  assume "\<exists>s'. split_newline s = Some (l, s') \<and> is_line_split s' ls r"
  then obtain s' where "split_newline s = Some (l, s')" "is_line_split s' ls r" by blast
  then show "is_line_split s (l # ls) r"
    using split_newline_Some[of s l s'] is_line_split_Cons[of l s' ls r] by simp
qed

lemma is_line_split_unique:
  "is_line_split s ls r \<Longrightarrow> is_line_split s ls' r' \<Longrightarrow> ls = ls' \<and> r = r'"
proof (induction ls arbitrary: s ls')
  case Nil
  then show ?case
    by (cases ls') (auto simp: is_line_split_Nil is_line_split_Cons_iff split_newline_None[symmetric])
next
  case (Cons l ls)
  then show ?case
    by (cases ls') (auto simp: is_line_split_Nil is_line_split_Cons_iff split_newline_None[symmetric])
qed

text \<open>
  Claim C9, as the code has it. Take the chunks received up to the first empty one and
  concatenate them. The stream splits in one way only into lines, each ended by a newline
  and holding none, and a rest without newline (\<open>is_line_split_unique\<close>). The reader puts
  on the ingest queue exactly those lines whose stripped form is non-empty, in order and
  each as it was received, changes nothing else, and keeps the rest in its buffer. So no
  line is cut in two, and a line whose newline has not arrived is not enqueued.
\<close>

theorem handle_client_enqueues_terminated_lines:
  "\<exists>lines. is_line_split (concat (takeWhile (\<lambda>data. data \<noteq> []) chunks)) lines
              (fst (handle_client chunks [] st))
        \<and> snd (handle_client chunks [] st) = st\<lparr>recv_queue := recv_queue st @ filter nonblank lines\<rparr>"
  using handle_client_lines_from[of "[]" chunks st] by simp

text \<open>A line that straddles two chunks, a blank line, and an unfinished last line.\<close>

theorem handle_client_enqueues_terminated_lines_witness:
  "handle_client [''ab'', ''c'' @ newline # '' '' @ newline # ''{}'' @ newline # ''xy''] []
       (initial :: int pipeline)
     = (''xy'', initial\<lparr>recv_queue := [''abc'', ''{}'']\<rparr>)
   \<and> (\<exists>lines. is_line_split (''abc'' @ newline # '' '' @ newline # ''{}'' @ newline # ''xy'') lines ''xy''
          \<and> [''abc'', ''{}''] = filter nonblank lines)"
proof -
  let ?st = "initial :: int pipeline"
  let ?chunks = "[''ab'', ''c'' @ newline # '' '' @ newline # ''{}'' @ newline # ''xy'']"
  have s: "strip ''abc'' \<noteq> []" "strip '' '' = []" "strip ''{}'' \<noteq> []"
    by (simp_all add: strip_def is_space_def)
  have n: "newline \<notin> set ''ab''" "newline \<notin> set ''abc''" "newline \<notin> set '' ''"
    "newline \<notin> set ''{}''" "newline \<notin> set ''xy''"
    by (simp_all add: newline_def)
  have d1: "drain ([] @ ''ab'') ?st = (''ab'', ?st)"
    using drain_no_newline[OF n(1), of ?st] by simp
  have d2a: "drain (''abc'' @ newline # '' '' @ newline # ''{}'' @ newline # ''xy'') ?st
      = drain ('' '' @ newline # ''{}'' @ newline # ''xy'') (?st\<lparr>recv_queue := recv_queue ?st @ [''abc'']\<rparr>)"
    using drain_line[OF n(2), of "'' '' @ newline # ''{}'' @ newline # ''xy''" ?st] s(1) by simp
  have d2b: "drain ('' '' @ newline # ''{}'' @ newline # ''xy'') st
      = drain (''{}'' @ newline # ''xy'') st" for st :: "int pipeline"
    using drain_line[OF n(3), of "''{}'' @ newline # ''xy''" st] s(2) by simp
  have d2c: "drain (''{}'' @ newline # ''xy'') st
      = (''xy'', st\<lparr>recv_queue := recv_queue st @ [''{}'']\<rparr>)" for st :: "int pipeline"
    using drain_line[OF n(4), of "''xy''" st] s(3) drain_no_newline[OF n(5)] by simp
  have d2: "drain (''ab'' @ ''c'' @ newline # '' '' @ newline # ''{}'' @ newline # ''xy'') ?st
      = (''xy'', ?st\<lparr>recv_queue := [''abc'', ''{}'']\<rparr>)"
    using d2a d2b d2c by (simp add: initial_def)
  have e: "handle_client ?chunks [] ?st = (''xy'', ?st\<lparr>recv_queue := [''abc'', ''{}'']\<rparr>)"
    using handle_client_step[OF _ d1, of ?chunks] d1 d2 by simp
  have c: "concat (takeWhile (\<lambda>data. data \<noteq> []) ?chunks)
         = ''abc'' @ newline # '' '' @ newline # ''{}'' @ newline # ''xy''"
    by simp
  from handle_client_enqueues_terminated_lines[of ?chunks ?st]
  obtain lines where
    l: "is_line_split (concat (takeWhile (\<lambda>data. data \<noteq> []) ?chunks)) lines
          (fst (handle_client ?chunks [] ?st))"
       "snd (handle_client ?chunks [] ?st)
          = ?st\<lparr>recv_queue := recv_queue ?st @ filter nonblank lines\<rparr>"
    by blast
  have a: "is_line_split (''abc'' @ newline # '' '' @ newline # ''{}'' @ newline # ''xy'') lines ''xy''"
    using l(1) unfolding c e by simp
  have "recv_queue (snd (handle_client ?chunks [] ?st)) = [''abc'', ''{}'']"
    unfolding e by simp
  then have b: "[''abc'', ''{}''] = filter nonblank lines"
    unfolding l(2) by (simp add: initial_def)
  show ?thesis using e a b by blast
qed

text \<open>
  Claim C9 as stated fails on a line with surrounding whitespace: \<open>strip\<close> is only the test,
  the line is enqueued with its whitespace. And the last line of a stream that does not
  end in a newline is never enqueued.
\<close>

theorem handle_client_untrimmed_counterexample:
  "recv_queue (snd (handle_client ['' {} '' @ [newline]] [] (initial :: int pipeline))) = ['' {} '']
   \<and> strip '' {} '' = ''{}''
   \<and> recv_queue (snd (handle_client [''a'' @ newline # ''b''] [] (initial :: int pipeline))) = [''a'']"
proof -
  let ?st = "initial :: int pipeline"
  have s: "strip '' {} '' = ''{}''" "strip ''a'' \<noteq> []"
    by (simp_all add: strip_def is_space_def)
  have n: "newline \<notin> set '' {} ''" "newline \<notin> set ''a''" "newline \<notin> set ''b''" "newline \<notin> set ''''"
    by (simp_all add: newline_def)
  have d1: "drain ('' {} '' @ [newline]) ?st = ([], ?st\<lparr>recv_queue := recv_queue ?st @ ['' {} '']\<rparr>)"
    using drain_line[OF n(1), of "[]" ?st] s(1) drain_no_newline[OF n(4)] by simp
  have d2: "drain (''a'' @ newline # ''b'') ?st = (''b'', ?st\<lparr>recv_queue := recv_queue ?st @ [''a'']\<rparr>)"
    using drain_line[OF n(2), of "''b''" ?st] s(2) drain_no_newline[OF n(3)] by simp
  have "recv_queue (snd (handle_client ['' {} '' @ [newline]] [] ?st)) = ['' {} '']"
    using d1 by (simp add: initial_def)
  moreover have "recv_queue (snd (handle_client [''a'' @ newline # ''b''] [] ?st)) = [''a'']"
    using d2 by (simp add: initial_def)
  ultimately show ?thesis using s(1) by blast
qed

section \<open>Facts about the exporter\<close>

lemma read_clock_simps:
  "fst (read_clock E st) = clock E (clock_reads st)"
  "snd (read_clock E st) = st\<lparr>clock_reads := clock_reads st + 1\<rparr>"
  by (simp_all add: read_clock_def)

lemma retry_frame: "snd (retry n E batch st) = st\<lparr>posted := posted (snd (retry n E batch st))\<rparr>"
proof (induction n arbitrary: st)
  case 0
  show ?case by simp
next
  case (Suc n)
  let ?st1 = "st\<lparr>posted := posted st @ [concat (map resourceSpans batch)]\<rparr>"
  have s: "snd (send_body E batch st) = ?st1" by (simp add: send_body_def Let_def)
  show ?case
  proof (cases "fst (send_body E batch st)")
    case True
    then show ?thesis using s by simp
  next
    case False
    then have r: "retry (Suc n) E batch st = retry n E batch ?st1" using s by simp
    obtain p where p: "snd (retry n E batch ?st1) = ?st1\<lparr>posted := p\<rparr>"
      using Suc[of ?st1] by metis
    show ?thesis unfolding r using p by simp
  qed
qed

lemma send_batch_frame:
  "snd (send_batch E batch st) =
     st\<lparr>dispatched := dispatched st @ [batch],
        posted := posted (snd (send_batch E batch st)),
        breaker := breaker (snd (send_batch E batch st)),
        clock_reads := clock_reads (snd (send_batch E batch st))\<rparr>"
proof -
  let ?st0 = "st\<lparr>dispatched := dispatched st @ [batch]\<rparr>"
  show ?thesis
  proof (cases "breaker st")
    case (Open t)
    let ?st1 = "?st0\<lparr>clock_reads := clock_reads st + 1\<rparr>"
    obtain p where p: "snd (retry retry_attempts E batch ?st1) = ?st1\<lparr>posted := p\<rparr>"
      using retry_frame by metis
    show ?thesis
      using Open p
      by (simp add: send_batch_def Let_def read_clock_simps trip_def)
  next
    case (Closed k)
    obtain p where p: "snd (retry retry_attempts E batch ?st0) = ?st0\<lparr>posted := p\<rparr>"
      using retry_frame by metis
    show ?thesis
      using Closed p
      by (simp add: send_batch_def Let_def read_clock_simps trip_def)
  qed
qed

lemma write_points_frame:
  "write_points E ts seen st =
     st\<lparr>sink_writes := sink_writes (write_points E ts seen st),
        written := written (write_points E ts seen st),
        stored := stored (write_points E ts seen st)\<rparr>"
proof (induction seen arbitrary: st)
  case Nil
  show ?case by simp
next
  case (Cons gt seen)
  obtain g t where gt: "gt = (g, t)" by (cases gt)
  let ?st1 = "st\<lparr>sink_writes := sink_writes st + 1,
                 written := written st @ [make_point ts g t],
                 stored := stored st @ (if sink E (sink_writes st) then [make_point ts g t] else [])\<rparr>"
  obtain k w d where kw: "write_points E ts seen ?st1 = ?st1\<lparr>sink_writes := k, written := w, stored := d\<rparr>"
    using Cons[of ?st1] by metis
  have w: "write_points E ts (gt # seen) st = write_points E ts seen ?st1"
    unfolding gt by simp
  show ?case unfolding w kw by simp
qed

lemma write_points_written:
  "written (write_points E ts seen st) = written st @ map (point_of ts) seen"
proof (induction seen arbitrary: st)
  case Nil
  then show ?case by simp
next
  case (Cons gt seen)
  obtain g t where gt: "gt = (g, t)" by (cases gt)
  from Cons show ?case unfolding gt by (simp add: point_of_def)
qed


lemma collect_seen_keys:
  "set (map fst (collect_seen batch seen))
     = set (map fst seen) \<union> priv_guid ` {s \<in> set batch. eligible s}"
  by (induction batch arbitrary: seen) (auto simp: dom_update eligible_def)

lemma collect_seen_distinct:
  "distinct (map fst seen) \<Longrightarrow> distinct (map fst (collect_seen batch seen))"
  by (induction batch arbitrary: seen) (auto simp: distinct_update)

lemma collect_seen_map_of:
  "map_of (collect_seen batch seen)
     = map_of (rev (map guid_trace (filter eligible batch)) @ seen)"
  by (induction batch arbitrary: seen)
     (auto simp: update_conv' eligible_def guid_trace_def map_add_def fun_eq_iff split: option.splits)

lemma export_try_None:
  assumes "fst (export_try E batch st) = None"
  shows "fst (send_batch E batch st) = None"
    and "written (snd (export_try E batch st))
           = written st @ map (point_of (clock E (clock_reads (snd (send_batch E batch st)))))
                              (collect_seen batch [])"
    and "batches_sent (snd (export_try E batch st)) = batches_sent st + 1"
proof -
  obtain r st1 where s: "send_batch E batch st = (r, st1)" by (cases "send_batch E batch st")
  from send_batch_frame[of E batch st] s obtain p b c where
    f: "st1 = st\<lparr>dispatched := dispatched st @ [batch], posted := p, breaker := b, clock_reads := c\<rparr>"
    by (metis snd_conv)
  show 1: "fst (send_batch E batch st) = None"
    using assms s by (cases r) (auto simp: export_try_def)
  let ?st2 = "st1\<lparr>batches_sent := batches_sent st1 + 1\<rparr>"
  let ?st3 = "?st2\<lparr>clock_reads := clock_reads ?st2 + 1\<rparr>"
  have e: "export_try E batch st
      = (None, write_points E (clock E (clock_reads st1)) (collect_seen batch []) ?st3)"
    using 1 s by (simp add: export_try_def Let_def read_clock_simps)
  from write_points_written[of E "clock E (clock_reads st1)" "collect_seen batch []" ?st3] f e s
  show "written (snd (export_try E batch st))
           = written st @ map (point_of (clock E (clock_reads (snd (send_batch E batch st)))))
                              (collect_seen batch [])"
    by simp
  from write_points_frame[of E "clock E (clock_reads st1)" "collect_seen batch []" ?st3]
  obtain k w d where "write_points E (clock E (clock_reads st1)) (collect_seen batch []) ?st3
      = ?st3\<lparr>sink_writes := k, written := w, stored := d\<rparr>" by metis
  then show "batches_sent (snd (export_try E batch st)) = batches_sent st + 1"
    using e f by simp
qed

lemma logon_span_fields:
  "priv_guid (logon_span g) = g" "priv_trace_id (logon_span g) = make_trace_id False g"
  by (simp_all add: logon_span_def build_eval)

lemma logoff_span_fields:
  "priv_guid (logoff_span g) = g" "priv_trace_id (logoff_span g) = make_trace_id True g"
  by (simp_all add: logoff_span_def build_eval)

lemma make_trace_id_nonempty: "make_trace_id b g \<noteq> []"
  using length_make_trace_id[of b g] by auto

lemma metric_name_logon: "metric_name (make_trace_id False g) = ''uberAgent:logonTraceMap''"
  by (simp add: metric_name_def make_trace_id_def)

lemma metric_name_logoff: "metric_name (make_trace_id True g) = ''uberAgent:logoffTraceMap''"
  by (simp add: metric_name_def make_trace_id_def)

lemma export_try_fields:
  "batches_sent (snd (export_try E batch st))
     = batches_sent st + (if fst (send_batch E batch st) = None then 1 else 0)"
  "export_failures (snd (export_try E batch st)) = export_failures st"
  "dispatched (snd (export_try E batch st)) = dispatched st @ [batch]"
  "span_queue (snd (export_try E batch st)) = span_queue st"
  "queue_gets (snd (export_try E batch st)) = queue_gets st"
proof -
  obtain r st1 where s: "send_batch E batch st = (r, st1)" by (cases "send_batch E batch st")
  from send_batch_frame[of E batch st] s obtain p b c where
    f: "st1 = st\<lparr>dispatched := dispatched st @ [batch], posted := p, breaker := b, clock_reads := c\<rparr>"
    by (metis snd_conv)
  let ?st3 = "st1\<lparr>batches_sent := batches_sent st1 + 1, clock_reads := clock_reads st1 + 1\<rparr>"
  let ?w = "write_points E (clock E (clock_reads st1)) (collect_seen batch []) ?st3"
  obtain k w d where kw: "?w = ?st3\<lparr>sink_writes := k, written := w, stored := d\<rparr>"
    using write_points_frame[of E "clock E (clock_reads st1)" "collect_seen batch []" ?st3] by metis
  have e: "snd (export_try E batch st) = (if r = None then ?w else st1)"
    using s by (cases r) (simp_all add: export_try_def Let_def read_clock_simps)
  show "batches_sent (snd (export_try E batch st))
     = batches_sent st + (if fst (send_batch E batch st) = None then 1 else 0)"
    using e s f kw by simp
  show "export_failures (snd (export_try E batch st)) = export_failures st"
    using e s f kw by simp
  show "dispatched (snd (export_try E batch st)) = dispatched st @ [batch]"
    using e s f kw by simp
  show "span_queue (snd (export_try E batch st)) = span_queue st"
    using e s f kw by simp
  show "queue_gets (snd (export_try E batch st)) = queue_gets st"
    using e s f kw by simp
qed

lemma export_fields:
  "batches_sent (export E batch st)
     = batches_sent st + (if fst (send_batch E batch st) = None then 1 else 0)"
  "export_failures (export E batch st)
     = export_failures st + (if fst (export_try E batch st) = None then 0 else 1)"
  "dispatched (export E batch st) = dispatched st @ [batch]"
  "span_queue (export E batch st) = span_queue st"
  "queue_gets (export E batch st) = queue_gets st"
  using export_try_fields[of E batch st]
  by (cases "export_try E batch st"; cases "fst (export_try E batch st)"; simp add: export_def)+

lemma export_written:
  "written (export E batch st) = written (snd (export_try E batch st))"
  by (cases "export_try E batch st"; cases "fst (export_try E batch st)"; simp add: export_def)

lemma eligible_built:
  assumes "build_span B now v = Inr m"
  shows "eligible m \<longleftrightarrow> priv_guid m \<noteq> []"
proof -
  obtain d where v: "v = JObj d"
    using assms by (cases v) (simp_all add: build_span_def)
  from build_span_fields[of B now d m] assms v
  have "length (priv_trace_id m) = 32" by (auto simp: length_make_trace_id)
  then show ?thesis by (auto simp: eligible_def)
qed

lemma send_batch_up:
  assumes "\<forall>k. endpoint E k" and "breaker st = Closed k"
  shows "fst (send_batch E batch st) = None"
  using assms by (simp add: send_batch_def Let_def retry_attempts_def eval_nat_numeral send_body_def)



lemma export_try_all_up:
  assumes "\<forall>k. endpoint E k" and "breaker st = Closed k" and "\<forall>k. sink E k"
  shows "fst (export_try E batch st) = None"
proof -
  obtain r st1 where s: "send_batch E batch st = (r, st1)" by (cases "send_batch E batch st")
  have r: "r = None" using send_batch_up[OF assms(1,2), of batch] s by simp
  show ?thesis using s r by (simp add: export_try_def Let_def)
qed

section \<open>Export of a batch and its correlation points\<close>



text \<open>
  Claim C7, as the code has it. When the send succeeds and no sink write raises, the
  points written for the batch are those of the \<open>seen\<close> dict, in its order, all stamped
  with the one clock reading taken after the send. The dict has one entry for each
  distinct guid among the spans whose guid and trace id are non-empty, and none for an
  empty guid; the entry holds the trace id of the last such span with that guid. A point
  has the tags \<open>guid\<close> and \<open>trace_id\<close>, the field \<open>value = 0\<close>, and the measurement
  \<open>uberAgent:logonTraceMap\<close> when the trace id starts with \<open>1\<close>, as a logon trace id
  does, and \<open>uberAgent:logoffTraceMap\<close> otherwise, as for a logoff trace id. A span made
  by \<open>build_span\<close> always has a non-empty trace id.
\<close>

theorem correlation_points_of_exported_batch:
  assumes "fst (export_try E batch st) = None"
  shows "written (export E batch st)
           = written st
             @ map (point_of (clock E (clock_reads (snd (send_batch E batch st)))))
                   (collect_seen batch [])
       \<and> distinct (map fst (collect_seen batch []))
       \<and> set (map fst (collect_seen batch [])) = priv_guid ` {s \<in> set batch. eligible s}
       \<and> map_of (collect_seen batch []) = map_of (rev (map guid_trace (filter eligible batch)))
       \<and> point_of ts (g, t) =
           \<lparr> measurement = (if take 1 t = ''1'' then ''uberAgent:logonTraceMap''
                            else ''uberAgent:logoffTraceMap''),
             point_tags = [(''guid'', g), (''trace_id'', t)],
             point_fields = [(''value'', 0)],
             point_time = ts \<rparr>
       \<and> metric_name (make_trace_id False guid) = ''uberAgent:logonTraceMap''
       \<and> metric_name (make_trace_id True guid) = ''uberAgent:logoffTraceMap''
       \<and> (build_span B now v = Inr m \<longrightarrow> eligible m = (priv_guid m \<noteq> []))"
proof -
  have 1: "written (export E batch st)
           = written st
             @ map (point_of (clock E (clock_reads (snd (send_batch E batch st)))))
                   (collect_seen batch [])"
    using export_try_None(2)[OF assms] by (simp add: export_written)
  have 2: "distinct (map fst (collect_seen batch []))"
    using collect_seen_distinct[of "[]" batch] by simp
  have 3: "set (map fst (collect_seen batch [])) = priv_guid ` {s \<in> set batch. eligible s}"
    using collect_seen_keys[of batch "[]"] by simp
  have 4: "map_of (collect_seen batch []) = map_of (rev (map guid_trace (filter eligible batch)))"
    using collect_seen_map_of[of batch "[]"] by simp
  have 5: "point_of ts (g, t) =
           \<lparr> measurement = (if take 1 t = ''1'' then ''uberAgent:logonTraceMap''
                            else ''uberAgent:logoffTraceMap''),
             point_tags = [(''guid'', g), (''trace_id'', t)],
             point_fields = [(''value'', 0)],
             point_time = ts \<rparr>"
    by (simp add: point_of_def make_point_def metric_name_def)
  have 6: "build_span B now v = Inr m \<longrightarrow> eligible m = (priv_guid m \<noteq> [])"
    using eligible_built[of B now v m] by simp
  show ?thesis
    using 1 2 3 4 5 6 metric_name_logon[of guid] metric_name_logoff[of guid]
    by (intro conjI)
qed

text \<open>
  A logon and a logoff span of session \<open>a\<close> and a span without guid: one point, for the
  logoff trace id that came last.
\<close>

theorem correlation_points_of_exported_batch_witness:
  "fst (export_try (still_env True True) [logon_span ''a'', logon_span '''', logoff_span ''a'']
          (initial :: int pipeline)) = None
   \<and> written (export (still_env True True) [logon_span ''a'', logon_span '''', logoff_span ''a'']
          (initial :: int pipeline))
       = [\<lparr> measurement = ''uberAgent:logoffTraceMap'',
            point_tags = [(''guid'', ''a''), (''trace_id'', ''2a000000000000000000000000000000'')],
            point_fields = [(''value'', 0)],
            point_time = 0 \<rparr>]"
proof -
  let ?E = "still_env True True :: int env"
  let ?batch = "[logon_span ''a'', logon_span '''', logoff_span ''a'']"
  have up: "\<forall>k. endpoint ?E k" "\<forall>k. sink ?E k"
    by (simp_all add: still_env_def)
  have b: "breaker (initial :: int pipeline) = Closed 0" by (simp add: initial_def)
  have ok: "fst (export_try ?E ?batch initial) = None"
    using export_try_all_up[OF up(1) b up(2)] .
  have t: "make_trace_id True ''a'' = ''2a000000000000000000000000000000''"
    by (simp add: make_trace_id_def remove_dashes_def replicate_numeral_unfold)
  have seen: "collect_seen ?batch [] = [(''a'', ''2a000000000000000000000000000000'')]"
    by (simp add: logon_span_fields logoff_span_fields make_trace_id_nonempty t)
  have c: "clock ?E k = 0" for k by (simp add: still_env_def)
  have w: "written (initial :: int pipeline) = []" by (simp add: initial_def)
  have "written (export ?E ?batch initial)
      = written (initial :: int pipeline)
        @ map (point_of (clock ?E (clock_reads (snd (send_batch ?E ?batch initial)))))
              (collect_seen ?batch [])"
    using correlation_points_of_exported_batch[OF ok] by (rule conjunct1)
  then have "written (export ?E ?batch initial)
      = [point_of 0 (''a'', ''2a000000000000000000000000000000'')]"
    unfolding seen c w by simp
  then have "written (export ?E ?batch initial)
       = [\<lparr> measurement = ''uberAgent:logoffTraceMap'',
            point_tags = [(''guid'', ''a''), (''trace_id'', ''2a000000000000000000000000000000'')],
            point_fields = [(''value'', 0)],
            point_time = 0 \<rparr>]"
    by (simp add: point_of_def make_point_def metric_name_def)
  with ok show ?thesis by (rule conjI)
qed

text \<open>
  Claim C7 as stated fails: a batch whose only span has the empty \<open>SessionGUID\<close> is
  exported and no point is written; and the measurement written for a logon trace id is
  not \<open>logonTraceMap\<close> but carries the prefix \<open>uberAgent:\<close>.
\<close>

theorem correlation_points_counterexample:
  "priv_guid (logon_span '''') = ''''
   \<and> fst (export_try (still_env True True) [logon_span ''''] (initial :: int pipeline)) = None
   \<and> written (export (still_env True True) [logon_span ''''] (initial :: int pipeline)) = []
   \<and> measurement (make_point 0 ''a'' (priv_trace_id (logon_span ''a''))) \<noteq> ''logonTraceMap''"
proof -
  let ?E = "still_env True True :: int env"
  have up: "\<forall>k. endpoint ?E k" "\<forall>k. sink ?E k"
    by (simp_all add: still_env_def)
  have b: "breaker (initial :: int pipeline) = Closed 0" by (simp add: initial_def)
  have ok: "fst (export_try ?E [logon_span ''''] initial) = None"
    using export_try_all_up[OF up(1) b up(2)] .
  have seen: "collect_seen [logon_span ''''] [] = []"
    by (simp add: logon_span_fields)
  have w: "written (export ?E [logon_span ''''] initial) = []"
    using export_try_None(2)[OF ok] seen by (simp add: export_written initial_def)
  have m: "measurement (make_point 0 ''a'' (priv_trace_id (logon_span ''a''))) \<noteq> ''logonTraceMap''"
    by (simp add: make_point_def logon_span_fields metric_name_logon)
  show ?thesis using ok w m by (simp add: logon_span_fields)
qed

section \<open>The circuit breaker\<close>

lemma export_send_fields:
  "breaker (export E b st) = breaker (snd (send_batch E b st))"
  "posted (export E b st) = posted (snd (send_batch E b st))"
proof -
  obtain r st1 where s: "send_batch E b st = (r, st1)" by (cases "send_batch E b st")
  let ?st3 = "st1\<lparr>batches_sent := batches_sent st1 + 1, clock_reads := clock_reads st1 + 1\<rparr>"
  let ?w = "write_points E (clock E (clock_reads st1)) (collect_seen b []) ?st3"
  obtain k w d where kw: "?w = ?st3\<lparr>sink_writes := k, written := w, stored := d\<rparr>"
    using write_points_frame[of E "clock E (clock_reads st1)" "collect_seen b []" ?st3] by metis
  have e: "snd (export_try E b st) = (if r = None then ?w else st1)"
    using s by (cases r) (simp_all add: export_try_def Let_def read_clock_simps)
  have x: "breaker (export E b st) = breaker (snd (export_try E b st))"
    "posted (export E b st) = posted (snd (export_try E b st))"
    by (cases "export_try E b st"; cases "fst (export_try E b st)"; simp add: export_def)+
  show "breaker (export E b st) = breaker (snd (send_batch E b st))"
    using x e s kw by simp
  show "posted (export E b st) = posted (snd (send_batch E b st))"
    using x e s kw by simp
qed

lemma retry_fields:
  "breaker (snd (retry n E batch st)) = breaker st"
  "clock_reads (snd (retry n E batch st)) = clock_reads st"
proof -
  obtain p where p: "snd (retry n E batch st) = st\<lparr>posted := p\<rparr>"
    using retry_frame by metis
  show "breaker (snd (retry n E batch st)) = breaker st" unfolding p by simp
  show "clock_reads (snd (retry n E batch st)) = clock_reads st" unfolding p by simp
qed

lemma send_batch_open_rejects:
  assumes "breaker st = Open t" and "clock E (clock_reads st) < t + reset_timeout"
  shows "send_batch E b st =
           (Some CircuitBreakerError,
            st\<lparr>dispatched := dispatched st @ [b], clock_reads := clock_reads st + 1\<rparr>)"
  using assms by (simp add: send_batch_def Let_def read_clock_simps)

lemma send_batch_breaker_cases:
  "breaker (snd (send_batch E b st)) = breaker st
   \<or> breaker (snd (send_batch E b st)) = Closed 0
   \<or> (\<exists>k. breaker st = Closed k \<and> breaker (snd (send_batch E b st)) = Closed (Suc k))
   \<or> (\<exists>j. breaker (snd (send_batch E b st)) = Open (clock E j))"
proof (cases "breaker st")
  case (Open t)
  then show ?thesis
    by (auto simp: send_batch_def Let_def read_clock_simps trip_def retry_fields)
next
  case (Closed k)
  then show ?thesis
    by (auto simp: send_batch_def Let_def read_clock_simps trip_def retry_fields)
qed

lemma failed_send_strikes:
  assumes "fst (send_batch E b st) \<noteq> None" and "strikes n st"
  shows "strikes (Suc n) (snd (send_batch E b st))"
proof (cases "breaker st")
  case (Open t)
  then show ?thesis
    using assms(1)
    by (auto simp: strikes_def send_batch_def Let_def read_clock_simps trip_def retry_fields
        split: if_splits)
next
  case (Closed k)
  then show ?thesis
    using assms
    by (auto simp: strikes_def send_batch_def Let_def read_clock_simps trip_def retry_fields
        split: if_splits)
qed

lemma sends_fail_strikes:
  "strikes n st \<Longrightarrow> sends_fail E bs st \<Longrightarrow> strikes (n + length bs) (export_all E bs st)"
proof (induction bs arbitrary: n st)
  case Nil
  then show ?case by simp
next
  case (Cons b bs)
  have "strikes (Suc n) (snd (send_batch E b st))"
    using failed_send_strikes[of E b st n] Cons.prems by simp
  then have "strikes (Suc n) (export E b st)"
    by (simp add: strikes_def export_send_fields)
  from Cons.IH[OF this] Cons.prems(2) show ?case by simp
qed

lemma opened_at_source:
  "breaker (export_all E bs st) = Open t \<Longrightarrow> breaker st = Open t \<or> (\<exists>j. t = clock E j)"
proof (induction bs arbitrary: st)
  case Nil
  then show ?case by simp
next
  case (Cons b bs)
  from Cons.IH[of "export E b st"] Cons.prems
  have "breaker (export E b st) = Open t \<or> (\<exists>j. t = clock E j)" by simp
  then show ?case
    using send_batch_breaker_cases[of E b st] by (auto simp: export_send_fields)
qed

lemma open_export:
  assumes "breaker st = Open t" and "clock E (clock_reads st) < t + reset_timeout"
  shows "posted (export E b st) = posted st"
    and "export_failures (export E b st) = export_failures st + 1"
    and "batches_sent (export E b st) = batches_sent st"
    and "breaker (export E b st) = Open t"
proof -
  note r = send_batch_open_rejects[OF assms, of b]
  show "posted (export E b st) = posted st" "breaker (export E b st) = Open t"
    using r assms(1) by (simp_all add: export_send_fields)
  have "fst (export_try E b st) \<noteq> None"
    using r by (simp add: export_try_def)
  then show "export_failures (export E b st) = export_failures st + 1"
    using export_fields(2)[of E b st] by simp
  show "batches_sent (export E b st) = batches_sent st"
    using export_fields(1)[of E b st] r by simp
qed

lemma open_export_all:
  assumes "\<forall>k. clock E k < t + reset_timeout"
  shows "breaker st = Open t \<Longrightarrow>
           posted (export_all E bs st) = posted st
         \<and> export_failures (export_all E bs st) = export_failures st + length bs
         \<and> batches_sent (export_all E bs st) = batches_sent st
         \<and> breaker (export_all E bs st) = Open t"
proof (induction bs arbitrary: st)
  case Nil
  then show ?case by simp
next
  case (Cons b bs)
  have c: "clock E (clock_reads st) < t + reset_timeout" using assms by simp
  note o = open_export[OF Cons.prems c, of b]
  from Cons.IH[OF o(4)] o show ?case by simp
qed

lemma retry_down: "(\<forall>k. \<not> endpoint E k) \<Longrightarrow> \<not> fst (retry n E batch st)"
  by (induction n arbitrary: st) (simp_all add: send_body_def Let_def)

lemma send_batch_down: "(\<forall>k. \<not> endpoint E k) \<Longrightarrow> fst (send_batch E b st) \<noteq> None"
  by (cases "breaker st") (simp_all add: send_batch_def Let_def retry_down trip_def)

lemma sends_fail_down: "(\<forall>k. \<not> endpoint E k) \<Longrightarrow> sends_fail E bs st"
  by (induction bs arbitrary: st) (simp_all add: send_batch_down)

lemma retry_posts_down:
  "(\<forall>k. \<not> endpoint E k) \<Longrightarrow> length (posted (snd (retry n E batch st))) = length (posted st) + n"
  by (induction n arbitrary: st) (simp_all add: send_body_def Let_def)

text \<open>
  Claim C6. After \<open>fail_max = 5\<close> exports in a row whose \<open>send_batch\<close> failed, from any
  state, the breaker is open; it opened at a reading of the clock unless it was open from
  the start. A further export that begins before \<open>reset_timeout\<close> has passed since then
  posts nothing, is counted as an export failure, sends no batch and leaves the breaker
  open as it was; so does every sequence of further exports while the clock stays inside
  the window. An endpoint that fails every call makes every \<open>send_batch\<close> fail.
\<close>

theorem open_breaker_fails_fast:
  assumes "length bs = fail_max" and "sends_fail E bs st"
  shows "\<exists>t. breaker (export_all E bs st) = Open t
           \<and> (breaker st = Open t \<or> (\<exists>j. t = clock E j))
           \<and> (clock E (clock_reads (export_all E bs st)) < t + reset_timeout \<longrightarrow>
                posted (export E b (export_all E bs st)) = posted (export_all E bs st)
              \<and> export_failures (export E b (export_all E bs st))
                  = export_failures (export_all E bs st) + 1
              \<and> batches_sent (export E b (export_all E bs st))
                  = batches_sent (export_all E bs st)
              \<and> breaker (export E b (export_all E bs st)) = Open t)
           \<and> ((\<forall>k. clock E k < t + reset_timeout) \<longrightarrow>
                posted (export_all E later (export_all E bs st)) = posted (export_all E bs st)
              \<and> export_failures (export_all E later (export_all E bs st))
                  = export_failures (export_all E bs st) + length later)
           \<and> ((\<forall>k. \<not> endpoint E' k) \<longrightarrow> sends_fail E' bs' st')"
proof -
  have "strikes 0 st" by (simp add: strikes_def split: breaker_state.splits)
  from sends_fail_strikes[OF this assms(2)] assms(1)
  have "strikes fail_max (export_all E bs st)" by simp
  then obtain t where t: "breaker (export_all E bs st) = Open t"
    by (cases "breaker (export_all E bs st)") (auto simp: strikes_def fail_max_def)
  have src: "breaker st = Open t \<or> (\<exists>j. t = clock E j)"
    using opened_at_source[OF t] .
  show ?thesis
    using t src open_export[OF t, of E b] open_export_all[of E t "export_all E bs st" later, OF _ t]
      sends_fail_down[of E' bs' st']
    by (intro exI[of _ t]) simp
qed

text \<open>
  An endpoint that fails every call, from start-up: five batches open the breaker, the
  sixth is refused without a POST.
\<close>

theorem open_breaker_fails_fast_witness:
  "sends_fail (still_env False True)
     [[logon_span ''a''], [logon_span ''b''], [logon_span ''c''], [logon_span ''d''], [logon_span ''e'']]
     initial
   \<and> breaker (export_all (still_env False True)
        [[logon_span ''a''], [logon_span ''b''], [logon_span ''c''], [logon_span ''d''], [logon_span ''e'']]
        initial) = Open 0
   \<and> posted (export (still_env False True) [logon_span ''f'']
        (export_all (still_env False True)
          [[logon_span ''a''], [logon_span ''b''], [logon_span ''c''], [logon_span ''d''], [logon_span ''e'']]
          initial))
     = posted (export_all (still_env False True)
          [[logon_span ''a''], [logon_span ''b''], [logon_span ''c''], [logon_span ''d''], [logon_span ''e'']]
          initial)
   \<and> export_failures (export (still_env False True) [logon_span ''f'']
        (export_all (still_env False True)
          [[logon_span ''a''], [logon_span ''b''], [logon_span ''c''], [logon_span ''d''], [logon_span ''e'']]
          initial))
     = export_failures (export_all (still_env False True)
          [[logon_span ''a''], [logon_span ''b''], [logon_span ''c''], [logon_span ''d''], [logon_span ''e'']]
          initial) + 1"
proof -
  let ?E = "still_env False True :: int env"
  let ?bs = "[[logon_span ''a''], [logon_span ''b''], [logon_span ''c''], [logon_span ''d''],
              [logon_span ''e'']]"
  let ?st = "initial :: int pipeline"
  have down: "\<forall>k. \<not> endpoint ?E k" by (simp add: still_env_def)
  have len: "length ?bs = fail_max" by (simp add: fail_max_def)
  have f: "sends_fail ?E ?bs ?st" using sends_fail_down[OF down] .
  have c: "clock ?E k = 0" for k by (simp add: still_env_def)
  have b0: "breaker ?st = Closed 0" by (simp add: initial_def)
  from open_breaker_fails_fast[OF len f, of "[logon_span ''f'']"]
  obtain t where
    t: "breaker (export_all ?E ?bs ?st) = Open t"
       "breaker ?st = Open t \<or> (\<exists>j. t = clock ?E j)"
       "clock ?E (clock_reads (export_all ?E ?bs ?st)) < t + reset_timeout \<longrightarrow>
          posted (export ?E [logon_span ''f''] (export_all ?E ?bs ?st)) = posted (export_all ?E ?bs ?st)
        \<and> export_failures (export ?E [logon_span ''f''] (export_all ?E ?bs ?st))
            = export_failures (export_all ?E ?bs ?st) + 1
        \<and> batches_sent (export ?E [logon_span ''f''] (export_all ?E ?bs ?st))
            = batches_sent (export_all ?E ?bs ?st)
        \<and> breaker (export ?E [logon_span ''f''] (export_all ?E ?bs ?st)) = Open t"
    by blast
  have t0: "t = 0" using t(2) b0 c by auto
  have w: "clock ?E (clock_reads (export_all ?E ?bs ?st)) < t + reset_timeout"
    by (simp add: t0 c reset_timeout_def)
  show ?thesis using f t(1) t(3) w t0 by blast
qed

section \<open>Collecting a batch\<close>

lemma queue_get_Some:
  "span_queue st = s # q \<Longrightarrow>
     queue_get E st =
       (Some s, st\<lparr>queue_gets := queue_gets st + 1, span_queue := q @ arrivals E (queue_gets st)\<rparr>)"
  by (simp add: queue_get_def Let_def)

lemma queue_get_dispatched: "dispatched (snd (queue_get E st)) = dispatched st"
  by (simp add: queue_get_def Let_def split: list.splits)

lemma collect_bounds:
  "collect C E start batch st = Inr (b, st') \<Longrightarrow>
     length batch \<le> length b
   \<and> int (length b) \<le> max (int (length batch)) (BATCH_SIZE C)
   \<and> dispatched st' = dispatched st"
proof (induction C E start batch st arbitrary: b st' rule: collect.induct)
  case (1 C E start batch st)
  let ?st1 = "snd (read_clock E st)"
  let ?t2 = "fst (read_clock E ?st1)"
  let ?st2 = "snd (read_clock E ?st1)"
  show ?case
  proof (cases "int (length batch) < BATCH_SIZE C")
    case False
    then have "collect C E start batch st = Inr (batch, st)"
      by (subst collect.simps) simp
    with "1.prems" show ?thesis by simp
  next
    case size: True
    show ?thesis
    proof (cases "fst (read_clock E st) - start < BATCH_TIMEOUT C")
      case False
      then have "collect C E start batch st = Inr (batch, ?st1)"
        using size by (subst collect.simps) simp
      with "1.prems" show ?thesis by (auto simp: read_clock_simps)
    next
      case window: True
      show ?thesis
      proof (cases "BATCH_TIMEOUT C - (?t2 - start) < 0")
        case True
        then have "collect C E start batch st = Inl ValueError"
          using size window by (subst collect.simps) (simp add: Let_def)
        with "1.prems" show ?thesis by simp
      next
        case timeout: False
        show ?thesis
        proof (cases "fst (queue_get E ?st2)")
          case None
          then have "collect C E start batch st = Inr (batch, snd (queue_get E ?st2))"
            using size window timeout by (subst collect.simps) (simp add: Let_def)
          with "1.prems" show ?thesis
            by (auto simp: queue_get_dispatched read_clock_simps)
        next
          case (Some s)
          then have c: "collect C E start batch st
              = collect C E start (batch @ [s]) (snd (queue_get E ?st2))"
            using size window timeout by (subst collect.simps) (simp add: Let_def)
          have ih: "length (batch @ [s]) \<le> length b
             \<and> int (length b) \<le> max (int (length (batch @ [s]))) (BATCH_SIZE C)
             \<and> dispatched st' = dispatched (snd (queue_get E ?st2))"
            using "1.IH"[OF size window refl refl refl timeout Some, of b st'] "1.prems" c
            by simp
          then show ?thesis
            using size by (auto simp: queue_get_dispatched read_clock_simps)
        qed
      qed
    qed
  qed
qed

lemma cycle_dispatched:
  assumes "cycle C E st = Inr st'"
  shows "dispatched st' = dispatched st \<or> (\<exists>b. dispatched st' = dispatched st @ [b] \<and> well_sized C b)"
proof (cases "fst (queue_get E st)")
  case None
  then have "cycle C E st = Inr (snd (queue_get E st))"
    by (cases "queue_get E st") (simp add: cycle_def)
  with assms show ?thesis by (auto simp: queue_get_dispatched)
next
  case (Some s)
  let ?st1 = "snd (queue_get E st)"
  let ?start = "fst (read_clock E ?st1)"
  let ?st2 = "snd (read_clock E ?st1)"
  have c: "cycle C E st =
      (case collect C E ?start [s] ?st2 of
         Inl e \<Rightarrow> Inl e
       | Inr (batch, st3) \<Rightarrow>
           (let st4 = (if batch \<noteq> [] then export E batch st3 else st3)
            in Inr (st4\<lparr>span_queue_size := length (span_queue st4)\<rparr>)))"
    using Some by (cases "queue_get E st") (simp add: cycle_def Let_def)
  show ?thesis
  proof (cases "collect C E ?start [s] ?st2")
    case (Inl e)
    with c assms show ?thesis by simp
  next
    case (Inr r)
    obtain b st3 where r: "r = (b, st3)" by (cases r)
    from collect_bounds[of C E ?start "[s]" ?st2 b st3] Inr r
    have b: "1 \<le> length b" "int (length b) \<le> max 1 (BATCH_SIZE C)"
      "dispatched st3 = dispatched st"
      by (auto simp: queue_get_dispatched read_clock_simps)
    then have ne: "b \<noteq> []" by auto
    have "st' = (export E b st3)\<lparr>span_queue_size := length (span_queue (export E b st3))\<rparr>"
      using c Inr r ne assms by (simp add: Let_def)
    then have "dispatched st' = dispatched st @ [b]"
      using b(3) by (simp add: export_fields)
    then show ?thesis using b ne by (auto simp: well_sized_def)
  qed
qed

lemma run_well_sized:
  "run C E n st = Inr st' \<Longrightarrow> list_all (well_sized C) (dispatched st)
     \<Longrightarrow> list_all (well_sized C) (dispatched st')"
proof (induction n arbitrary: st)
  case 0
  then show ?case by simp
next
  case (Suc n)
  from Suc.prems(1) obtain st1 where
    s: "cycle C E st = Inr st1" "run C E n st1 = Inr st'"
    by (auto simp: bind_err_Inr)
  from cycle_dispatched[OF s(1)] Suc.prems(2)
  have "list_all (well_sized C) (dispatched st1)" by auto
  from Suc.IH[OF s(2) this] show ?case .
qed

lemma arrived_shift:
  assumes "span_queue st @ arrivals E (queue_gets st) = s # r"
    and "span_queue st' = r" and "queue_gets st' = Suc (queue_gets st)"
  shows "arrived E st (Suc n) = s # arrived E st' n"
proof -
  have "[queue_gets st ..< queue_gets st + Suc n] = queue_gets st # [Suc (queue_gets st) ..< Suc (queue_gets st) + n]"
    by (simp add: upt_conv_Cons)
  then show ?thesis using assms by (simp add: arrived_def)
qed

lemma arrived_Suc: "arrived E st (Suc n) = arrived E st n @ arrivals E (queue_gets st + n)"
  by (simp add: arrived_def)

lemma collect_done:
  "\<not> int (length batch) < BATCH_SIZE C \<Longrightarrow> collect C E start batch st = Inr (batch, st)"
  by (subst collect.simps) simp

lemma collect_closed:
  "int (length batch) < BATCH_SIZE C
     \<Longrightarrow> \<not> clock E (clock_reads st) - start < BATCH_TIMEOUT C
     \<Longrightarrow> collect C E start batch st = Inr (batch, st\<lparr>clock_reads := clock_reads st + 1\<rparr>)"
  by (subst collect.simps) (simp add: read_clock_simps)

lemma collect_slip:
  "int (length batch) < BATCH_SIZE C
     \<Longrightarrow> clock E (clock_reads st) - start < BATCH_TIMEOUT C
     \<Longrightarrow> BATCH_TIMEOUT C - (clock E (clock_reads st + 1) - start) < 0
     \<Longrightarrow> collect C E start batch st = Inl ValueError"
  by (subst collect.simps) (simp add: read_clock_simps Let_def)

lemma collect_get:
  "int (length batch) < BATCH_SIZE C
     \<Longrightarrow> clock E (clock_reads st) - start < BATCH_TIMEOUT C
     \<Longrightarrow> \<not> BATCH_TIMEOUT C - (clock E (clock_reads st + 1) - start) < 0
     \<Longrightarrow> collect C E start batch st =
           (case fst (queue_get E (st\<lparr>clock_reads := clock_reads st + 2\<rparr>)) of
              None \<Rightarrow> Inr (batch, snd (queue_get E (st\<lparr>clock_reads := clock_reads st + 2\<rparr>)))
            | Some s \<Rightarrow>
                collect C E start (batch @ [s]) (snd (queue_get E (st\<lparr>clock_reads := clock_reads st + 2\<rparr>))))"
  by (subst collect.simps) (auto simp: read_clock_simps Let_def split: option.splits)

lemma collect_fills:
  "collect C E start batch st = Inr (b, st')
     \<Longrightarrow> \<forall>j < nat (BATCH_SIZE C) - length batch.
           clock E (clock_reads st + 2 * j) - start < BATCH_TIMEOUT C
     \<Longrightarrow> \<forall>j < nat (BATCH_SIZE C) - length batch. j < length (arrived E st (Suc j))
     \<Longrightarrow> b = batch @ take (nat (BATCH_SIZE C) - length batch)
                        (arrived E st (nat (BATCH_SIZE C) - length batch))
       \<and> span_queue st' = drop (nat (BATCH_SIZE C) - length batch)
                              (arrived E st (nat (BATCH_SIZE C) - length batch))
       \<and> queue_gets st' = queue_gets st + (nat (BATCH_SIZE C) - length batch)"
proof (induction C E start batch st arbitrary: b st' rule: collect.induct)
  case (1 C E start batch st)
  let ?n = "nat (BATCH_SIZE C) - length batch"
  let ?st1 = "snd (read_clock E st)"
  let ?t2 = "fst (read_clock E ?st1)"
  let ?st2 = "snd (read_clock E ?st1)"
  show ?case
  proof (cases "int (length batch) < BATCH_SIZE C")
    case False
    then have "collect C E start batch st = Inr (batch, st)" by (rule collect_done)
    moreover have "?n = 0" using False by linarith
    ultimately show ?thesis using "1.prems"(1) by (simp add: arrived_def)
  next
    case size: True
    then have "0 < ?n" by linarith
    then obtain m where m: "?n = Suc m" by (cases ?n) auto
    have window: "fst (read_clock E st) - start < BATCH_TIMEOUT C"
      using "1.prems"(2)[rule_format, of 0] m by (simp add: read_clock_simps)
    show ?thesis
    proof (cases "BATCH_TIMEOUT C - (?t2 - start) < 0")
      case True
      then have "collect C E start batch st = Inl ValueError"
        using size window by (subst collect.simps) (simp add: Let_def)
      with "1.prems"(1) show ?thesis by simp
    next
      case timeout: False
      have "0 < length (arrived E st (Suc 0))" using "1.prems"(3)[rule_format, of 0] m by simp
      then obtain s r where sr: "span_queue st @ arrivals E (queue_gets st) = s # r"
        by (cases "span_queue st @ arrivals E (queue_gets st)") (auto simp: arrived_def)
      let ?st3 = "snd (queue_get E ?st2)"
      have g: "queue_get E ?st2
          = (Some s, ?st2\<lparr>queue_gets := queue_gets ?st2 + 1, span_queue := r\<rparr>)"
        using sr by (simp add: queue_get_def Let_def read_clock_simps)
      have some: "fst (queue_get E ?st2) = Some s" using g by simp
      have st3: "span_queue ?st3 = r" "queue_gets ?st3 = Suc (queue_gets st)"
        "clock_reads ?st3 = clock_reads st + 2"
        using g by (simp_all add: read_clock_simps)
      have c: "collect C E start batch st = collect C E start (batch @ [s]) ?st3"
        using size window timeout some by (subst collect.simps) (simp add: Let_def)
      have shift: "arrived E st (Suc k) = s # arrived E ?st3 k" for k
        using arrived_shift[OF sr st3(1) st3(2)] .
      have n': "nat (BATCH_SIZE C) - length (batch @ [s]) = m" using m by simp
      have h2: "\<forall>j < nat (BATCH_SIZE C) - length (batch @ [s]).
             clock E (clock_reads ?st3 + 2 * j) - start < BATCH_TIMEOUT C"
      proof (intro allI impI)
        fix j assume "j < nat (BATCH_SIZE C) - length (batch @ [s])"
        then have "Suc j < ?n" using m n' by simp
        then have "clock E (clock_reads st + 2 * Suc j) - start < BATCH_TIMEOUT C"
          using "1.prems"(2) by blast
        then show "clock E (clock_reads ?st3 + 2 * j) - start < BATCH_TIMEOUT C"
          by (simp add: st3(3) add.commute add.left_commute)
      qed
      have h3: "\<forall>j < nat (BATCH_SIZE C) - length (batch @ [s]). j < length (arrived E ?st3 (Suc j))"
      proof (intro allI impI)
        fix j assume "j < nat (BATCH_SIZE C) - length (batch @ [s])"
        then have "Suc j < ?n" using m n' by simp
        then have "Suc j < length (arrived E st (Suc (Suc j)))"
          using "1.prems"(3) by blast
        then show "j < length (arrived E ?st3 (Suc j))"
          by (simp add: shift)
      qed
      have r: "collect C E start (batch @ [s]) ?st3 = Inr (b, st')"
        using "1.prems"(1) c by simp
      from "1.IH"[OF size window refl refl refl timeout some r h2 h3]
      have ih: "b = (batch @ [s]) @ take m (arrived E ?st3 m)"
        "span_queue st' = drop m (arrived E ?st3 m)"
        "queue_gets st' = queue_gets ?st3 + m"
        unfolding n' by simp_all
      show ?thesis
        unfolding m shift using ih st3(2) by simp
    qed
  qed
qed

lemma cycle_with_span:
  assumes "span_queue st @ arrivals E (queue_gets st) = s # r"
  shows "cycle C E st =
      (case collect C E (clock E (clock_reads st)) [s]
              (st\<lparr>queue_gets := queue_gets st + 1, span_queue := r,
                  clock_reads := clock_reads st + 1\<rparr>) of
         Inl e \<Rightarrow> Inl e
       | Inr (batch, st3) \<Rightarrow>
           (let st4 = (if batch \<noteq> [] then export E batch st3 else st3)
            in Inr (st4\<lparr>span_queue_size := length (span_queue st4)\<rparr>)))"
  using assms by (simp add: cycle_def queue_get_def Let_def read_clock_simps)

lemma cycle_next_batch:
  assumes "cycle C E st = Inr st'" and "span_queue st @ arrivals E (queue_gets st) \<noteq> []"
  shows "\<exists>b. dispatched st' = dispatched st @ [b] \<and> b \<noteq> []"
proof -
  obtain s r where sr: "span_queue st @ arrivals E (queue_gets st) = s # r"
    using assms(2) by (cases "span_queue st @ arrivals E (queue_gets st)") auto
  let ?st2 = "st\<lparr>queue_gets := queue_gets st + 1, span_queue := r,
                 clock_reads := clock_reads st + 1\<rparr>"
  note c = cycle_with_span[OF sr, of C]
  show ?thesis
  proof (cases "collect C E (clock E (clock_reads st)) [s] ?st2")
    case (Inl e)
    with c assms(1) show ?thesis by simp
  next
    case (Inr p)
    obtain b st3 where p: "p = (b, st3)" by (cases p)
    from collect_bounds[of C E "clock E (clock_reads st)" "[s]" ?st2 b st3] Inr p
    have b: "1 \<le> length b" "dispatched st3 = dispatched st" by auto
    then have ne: "b \<noteq> []" by auto
    have "st' = (export E b st3)\<lparr>span_queue_size := length (span_queue (export E b st3))\<rparr>"
      using c Inr p ne assms(1) by (simp add: Let_def)
    then have "dispatched st' = dispatched st @ [b]"
      using b(2) by (simp add: export_fields)
    then show ?thesis using ne by blast
  qed
qed

lemma cycle_first_batch:
  assumes fin: "cycle C E st = Inr st'" and size: "1 \<le> BATCH_SIZE C"
    and avail: "\<forall>i \<le> nat (BATCH_SIZE C). i < length (arrived E st (Suc i))"
    and window: "\<forall>i. 1 \<le> i \<and> i < nat (BATCH_SIZE C) \<longrightarrow>
                   clock E (clock_reads st + 2 * i - 1) - clock E (clock_reads st) < BATCH_TIMEOUT C"
  shows "dispatched st' = dispatched st @ [take (nat (BATCH_SIZE C)) (arrived E st (nat (BATCH_SIZE C)))]"
    and "span_queue st' = drop (nat (BATCH_SIZE C)) (arrived E st (nat (BATCH_SIZE C)))"
    and "queue_gets st' = queue_gets st + nat (BATCH_SIZE C)"
    and "length (take (nat (BATCH_SIZE C)) (arrived E st (nat (BATCH_SIZE C)))) = nat (BATCH_SIZE C)"
proof -
  obtain m where m: "nat (BATCH_SIZE C) = Suc m" using size by (cases "nat (BATCH_SIZE C)") auto
  have "0 < length (arrived E st (Suc 0))" using avail[rule_format, of 0] by simp
  then obtain s r where sr: "span_queue st @ arrivals E (queue_gets st) = s # r"
    by (cases "span_queue st @ arrivals E (queue_gets st)") (auto simp: arrived_def)
  let ?start = "clock E (clock_reads st)"
  let ?st2 = "st\<lparr>queue_gets := queue_gets st + 1, span_queue := r,
                 clock_reads := clock_reads st + 1\<rparr>"
  note c = cycle_with_span[OF sr, of C]
  have shift: "arrived E st (Suc k) = s # arrived E ?st2 k" for k
    using arrived_shift[OF sr, of ?st2] by simp
  obtain b st3 where r: "collect C E ?start [s] ?st2 = Inr (b, st3)"
    using c fin by (cases "collect C E ?start [s] ?st2") auto
  have n: "nat (BATCH_SIZE C) - length [s] = m" using m by simp
  have h2: "\<forall>j < nat (BATCH_SIZE C) - length [s].
              clock E (clock_reads ?st2 + 2 * j) - ?start < BATCH_TIMEOUT C"
  proof (intro allI impI)
    fix j assume "j < nat (BATCH_SIZE C) - length [s]"
    then have "1 \<le> Suc j \<and> Suc j < nat (BATCH_SIZE C)" using m by simp
    then have "clock E (clock_reads st + 2 * Suc j - 1) - ?start < BATCH_TIMEOUT C"
      using window by blast
    then show "clock E (clock_reads ?st2 + 2 * j) - ?start < BATCH_TIMEOUT C"
      by (simp add: add.commute add.left_commute)
  qed
  have h3: "\<forall>j < nat (BATCH_SIZE C) - length [s]. j < length (arrived E ?st2 (Suc j))"
  proof (intro allI impI)
    fix j assume "j < nat (BATCH_SIZE C) - length [s]"
    then have "Suc j \<le> nat (BATCH_SIZE C)" using m by simp
    then have "Suc j < length (arrived E st (Suc (Suc j)))" using avail by blast
    then show "j < length (arrived E ?st2 (Suc j))" by (simp add: shift)
  qed
  from collect_fills[OF r h2 h3]
  have f: "b = [s] @ take m (arrived E ?st2 m)"
    "span_queue st3 = drop m (arrived E ?st2 m)"
    "queue_gets st3 = queue_gets ?st2 + m"
    unfolding n by simp_all
  have b: "b = take (nat (BATCH_SIZE C)) (arrived E st (nat (BATCH_SIZE C)))"
    unfolding m shift using f(1) by simp
  have d3: "dispatched st3 = dispatched st"
    using collect_bounds[OF r] by simp
  have ne: "b \<noteq> []" using f(1) by simp
  have st': "st' = (export E b st3)\<lparr>span_queue_size := length (span_queue (export E b st3))\<rparr>"
    using c r ne fin by (simp add: Let_def)
  show "dispatched st' = dispatched st @ [take (nat (BATCH_SIZE C)) (arrived E st (nat (BATCH_SIZE C)))]"
    using st' d3 b by (simp add: export_fields)
  show "span_queue st' = drop (nat (BATCH_SIZE C)) (arrived E st (nat (BATCH_SIZE C)))"
    unfolding m shift using st' f(2) by (simp add: export_fields)
  show "queue_gets st' = queue_gets st + nat (BATCH_SIZE C)"
    using st' f(3) m by (simp add: export_fields)
  have "m < length (arrived E st (Suc m))" using avail[rule_format, of m] m by simp
  then show "length (take (nat (BATCH_SIZE C)) (arrived E st (nat (BATCH_SIZE C)))) = nat (BATCH_SIZE C)"
    unfolding m by simp
qed

lemmas exporter_eval =
  cycle_def queue_get_def Let_def read_clock_simps collect_done collect_closed collect_slip
  collect_get bind_err_def numeral_2_eq_2 export_def export_try_def send_batch_def
  retry_attempts_def numeral_3_eq_3 send_body_def logon_span_fields make_trace_id_nonempty
  initial_def

lemma busy_available:
  "spans_available \<lparr>BATCH_SIZE = 2, BATCH_TIMEOUT = 200000000\<rparr> busy_env
     (initial\<lparr>span_queue := [logon_span ''a'']\<rparr>)"
  by (simp add: spans_available_def arrived_def busy_env_def initial_def numeral_2_eq_2)

lemma busy_window:
  "window_open \<lparr>BATCH_SIZE = 2, BATCH_TIMEOUT = 200000000\<rparr> busy_env
     (initial\<lparr>span_queue := [logon_span ''a'']\<rparr>)"
  by (simp add: window_open_def busy_env_def initial_def numeral_2_eq_2)

lemma busy_run:
  "\<exists>st2. run \<lparr>BATCH_SIZE = 2, BATCH_TIMEOUT = 200000000\<rparr> busy_env 2
           (initial\<lparr>span_queue := [logon_span ''a'']\<rparr>) = Inr st2
       \<and> dispatched st2 = [[logon_span ''a'', logon_span ''b''], [logon_span ''c'']]"
  by (simp add: exporter_eval busy_env_def)

text \<open>
  Claim C5, as the code has it. Every batch handed to \<open>send_batch\<close> in any number of
  iterations of \<open>run\<close> is non-empty and has at most \<open>max(1, BATCH_SIZE)\<close> spans: the first
  span is taken before the size is looked at. And when \<open>BATCH_SIZE\<close> is at least 1, each
  of the next \<open>BATCH_SIZE + 1\<close> gets finds a span (queued before, or put by a producer in
  time), each loop test of the first collection finds less than \<open>BATCH_TIMEOUT\<close> elapsed
  since its first span, and two iterations of \<open>run\<close> complete, then two batches have been
  dispatched: the first \<open>BATCH_SIZE\<close> of those spans, and then a non-empty batch. Nothing
  is said of a run that an exception ends.
\<close>

theorem batches_are_bounded:
  "(run C E n st = Inr st' \<and> list_all (well_sized C) (dispatched st)
      \<longrightarrow> list_all (well_sized C) (dispatched st'))
   \<and> (1 \<le> BATCH_SIZE C \<and> spans_available C E st \<and> window_open C E st
        \<and> run C E 2 st = Inr st2
      \<longrightarrow> (\<exists>b2. dispatched st2
                  = dispatched st @ [take (nat (BATCH_SIZE C)) (arrived E st (nat (BATCH_SIZE C))), b2]
             \<and> length (take (nat (BATCH_SIZE C)) (arrived E st (nat (BATCH_SIZE C))))
                 = nat (BATCH_SIZE C)
             \<and> b2 \<noteq> []))"
proof -
  have two: "\<exists>b2. dispatched st2
                  = dispatched st @ [take (nat (BATCH_SIZE C)) (arrived E st (nat (BATCH_SIZE C))), b2]
             \<and> length (take (nat (BATCH_SIZE C)) (arrived E st (nat (BATCH_SIZE C))))
                 = nat (BATCH_SIZE C)
             \<and> b2 \<noteq> []"
    if size: "1 \<le> BATCH_SIZE C" and sa: "spans_available C E st" and wo: "window_open C E st"
      and run2: "run C E 2 st = Inr st2"
  proof -
    let ?n = "nat (BATCH_SIZE C)"
    have avail: "\<forall>i \<le> ?n. i < length (arrived E st (Suc i))"
      using sa by (auto simp: spans_available_def list_all_iff)
    have window: "\<forall>i. 1 \<le> i \<and> i < ?n \<longrightarrow>
                   clock E (clock_reads st + 2 * i - 1) - clock E (clock_reads st) < BATCH_TIMEOUT C"
      using wo by (auto simp: window_open_def list_all_iff)
    from run2 obtain st1 where
      c1: "cycle C E st = Inr st1" and c2: "cycle C E st1 = Inr st2"
      by (auto simp: numeral_2_eq_2 bind_err_Inr)
    note f = cycle_first_batch[OF c1 size avail window]
    have len: "?n \<le> length (arrived E st ?n)" using f(4) by simp
    have "span_queue st1 @ arrivals E (queue_gets st1) = drop ?n (arrived E st (Suc ?n))"
      using f(2,3) len by (simp add: arrived_Suc)
    moreover have "?n < length (arrived E st (Suc ?n))" using avail by blast
    ultimately have "span_queue st1 @ arrivals E (queue_gets st1) \<noteq> []" by simp
    from cycle_next_batch[OF c2 this] obtain b2 where
      "dispatched st2 = dispatched st1 @ [b2]" "b2 \<noteq> []" by blast
    then show ?thesis using f(1,4) by auto
  qed
  show ?thesis using run_well_sized[of C E n st st'] two by blast
qed

text \<open>
  A batch size of 2, one span queued, one that arrives while the first batch is collected
  and one that arrives after; the export of the first batch takes a second, and the get
  that ends the second batch waits its timeout out.
\<close>

theorem batches_are_bounded_witness:
  "spans_available \<lparr>BATCH_SIZE = 2, BATCH_TIMEOUT = 200000000\<rparr> busy_env
     (initial\<lparr>span_queue := [logon_span ''a'']\<rparr>)
   \<and> window_open \<lparr>BATCH_SIZE = 2, BATCH_TIMEOUT = 200000000\<rparr> busy_env
       (initial\<lparr>span_queue := [logon_span ''a'']\<rparr>)
   \<and> (\<exists>st2 b2.
        run \<lparr>BATCH_SIZE = 2, BATCH_TIMEOUT = 200000000\<rparr> busy_env 2
          (initial\<lparr>span_queue := [logon_span ''a'']\<rparr>) = Inr st2
      \<and> dispatched st2 = [[logon_span ''a'', logon_span ''b''], b2]
      \<and> b2 \<noteq> []
      \<and> list_all (well_sized \<lparr>BATCH_SIZE = 2, BATCH_TIMEOUT = 200000000\<rparr>) (dispatched st2))"
proof -
  let ?C = "\<lparr>BATCH_SIZE = 2, BATCH_TIMEOUT = 200000000\<rparr>"
  let ?st = "(initial :: int pipeline)\<lparr>span_queue := [logon_span ''a'']\<rparr>"
  obtain st2 where r: "run ?C busy_env 2 ?st = Inr st2"
    using busy_run by blast
  have size: "1 \<le> BATCH_SIZE ?C" by simp
  have d0: "dispatched ?st = []" by (simp add: initial_def)
  have a: "take (nat (BATCH_SIZE ?C)) (arrived busy_env ?st (nat (BATCH_SIZE ?C)))
         = [logon_span ''a'', logon_span ''b'']"
    by (simp add: arrived_def busy_env_def initial_def numeral_2_eq_2)
  from batches_are_bounded[of ?C busy_env 2 ?st st2 st2] size busy_available busy_window r d0
  have w: "list_all (well_sized ?C) (dispatched st2)"
    and "\<exists>b2. dispatched st2
            = dispatched ?st @ [take (nat (BATCH_SIZE ?C)) (arrived busy_env ?st (nat (BATCH_SIZE ?C))), b2]
          \<and> length (take (nat (BATCH_SIZE ?C)) (arrived busy_env ?st (nat (BATCH_SIZE ?C))))
              = nat (BATCH_SIZE ?C)
          \<and> b2 \<noteq> []"
    by simp_all
  then obtain b2 where
    b2: "dispatched st2
           = dispatched ?st @ [take (nat (BATCH_SIZE ?C)) (arrived busy_env ?st (nat (BATCH_SIZE ?C))), b2]"
        "b2 \<noteq> []"
    by blast
  have d: "dispatched st2 = [[logon_span ''a'', logon_span ''b''], b2]"
    using b2(1) unfolding a d0 by simp
  show ?thesis using busy_available busy_window r d b2(2) w by blast
qed

text \<open>
  Claim C5 as stated fails in two ways. With a batch size of 0 the batch dispatched has
  one span. With a batch size of 2 and three spans queued, a clock that passes the
  deadline between the loop test and the computation of the timeout hands \<open>get\<close> a
  negative timeout: \<open>ValueError\<close> leaves \<open>run\<close> and no batch is dispatched.
\<close>

theorem batches_are_bounded_counterexample:
  "map_sum id dispatched
     (cycle \<lparr>BATCH_SIZE = 0, BATCH_TIMEOUT = 200000000\<rparr> (still_env True True)
        (initial\<lparr>span_queue := [logon_span ''a'']\<rparr>))
     = Inr [[logon_span ''a'']]
   \<and> \<not> int (length [logon_span ''a'']) \<le> BATCH_SIZE \<lparr>BATCH_SIZE = 0, BATCH_TIMEOUT = 200000000\<rparr>
   \<and> spans_available \<lparr>BATCH_SIZE = 2, BATCH_TIMEOUT = 200000000\<rparr> jump_env
       (initial\<lparr>span_queue := [logon_span ''a'', logon_span ''b'', logon_span ''c'']\<rparr>)
   \<and> window_open \<lparr>BATCH_SIZE = 2, BATCH_TIMEOUT = 200000000\<rparr> jump_env
       (initial\<lparr>span_queue := [logon_span ''a'', logon_span ''b'', logon_span ''c'']\<rparr>)
   \<and> run \<lparr>BATCH_SIZE = 2, BATCH_TIMEOUT = 200000000\<rparr> jump_env 2
       (initial\<lparr>span_queue := [logon_span ''a'', logon_span ''b'', logon_span ''c'']\<rparr>)
     = Inl ValueError"
proof -
  let ?C = "\<lparr>BATCH_SIZE = 0, BATCH_TIMEOUT = 200000000\<rparr>"
  let ?E = "still_env True True :: int env"
  let ?st = "(initial :: int pipeline)\<lparr>span_queue := [logon_span ''a'']\<rparr>"
  have "cycle ?C ?E ?st = Inr st' \<Longrightarrow> dispatched st' = [[logon_span ''a'']]" for st'
    by (auto simp: cycle_def queue_get_def Let_def collect_done export_fields read_clock_simps
        initial_def)
  moreover have "\<exists>st'. cycle ?C ?E ?st = Inr st'"
    by (simp add: cycle_def queue_get_def Let_def collect_done)
  ultimately have 1: "map_sum id dispatched (cycle ?C ?E ?st) = Inr [[logon_span ''a'']]"
    by auto
  let ?C2 = "\<lparr>BATCH_SIZE = 2, BATCH_TIMEOUT = 200000000\<rparr>"
  let ?st3 = "(initial :: int pipeline)\<lparr>span_queue := [logon_span ''a'', logon_span ''b'', logon_span ''c'']\<rparr>"
  have 2: "spans_available ?C2 jump_env ?st3"
    by (simp add: spans_available_def arrived_def jump_env_def initial_def numeral_2_eq_2)
  have 3: "window_open ?C2 jump_env ?st3"
    by (simp add: window_open_def jump_env_def initial_def numeral_2_eq_2)
  have 4: "run ?C2 jump_env 2 ?st3 = Inl ValueError"
    by (simp add: exporter_eval jump_env_def)
  show ?thesis using 1 2 3 4 by simp
qed

end
